theory Spec2Isabelle
  imports Main
begin

section \<open>The deep linker of the navigation system (deep-linker.ts)\<close>

text \<open>
  A JavaScript string is modelled as a \<open>string\<close>: the code units below 256, which is
  where every character tested by the code (\<open>/\<close>, \<open>-\<close>, the digits, white space) lives.
  The value \<open>undefined\<close> of an absent array entry or field is \<open>None\<close>.
\<close>

subsection \<open>History tracker\<close>

text \<open>
  \<open>_history: string[]\<close>, oldest entry first; the top of the history is the last element.
  \<open>js_at\<close> is the array read \<open>a[i]\<close>: outside the array it is \<open>undefined\<close>.
\<close>

type_synonym history = "string list"

definition js_at :: "'a list \<Rightarrow> int \<Rightarrow> 'a option" where
  "js_at a i = (if 0 \<le> i \<and> i < int (length a) then Some (a ! nat i) else None)"

definition isBackUrl :: "history \<Rightarrow> string \<Rightarrow> bool" where
  "isBackUrl h browserUrl = (Some browserUrl = js_at h (int (length h) - 2))"

definition isCurrentUrl :: "history \<Rightarrow> string \<Rightarrow> bool" where
  "isCurrentUrl h browserUrl = (Some browserUrl = js_at h (int (length h) - 1))"

definition historyPush :: "history \<Rightarrow> string \<Rightarrow> history" where
  "historyPush h browserUrl =
     (if \<not> isCurrentUrl h browserUrl then
        (let h1 = h @ [browserUrl]
         in if length h1 > 30 then tl h1 else h1)
      else h)"

text \<open>\<open>path\<close> is what \<open>this._location.path()\<close> returns at the time of the call.\<close>

definition historyPop :: "string \<Rightarrow> history \<Rightarrow> history" where
  "historyPop path h =
     (let h1 = butlast h
      in if length h1 = 0 then historyPush h1 path else h1)"

subsection \<open>URL normalisation\<close>

text \<open>
  \<open>String.prototype.trim\<close> removes white space and line terminators from both ends; among
  the code units below 256 these are TAB, LF, VT, FF, CR, SPACE and NBSP.
\<close>

definition js_whitespace :: "char \<Rightarrow> bool" where
  "js_whitespace c = (of_char c \<in> {9, 10, 11, 12, 13, 32, 160 :: nat})"

definition trim :: "string \<Rightarrow> string" where
  "trim s = rev (dropWhile js_whitespace (rev (dropWhile js_whitespace s)))"

text \<open>\<open>s.charAt(i)\<close> is the empty string outside the string.\<close>

definition charAt :: "string \<Rightarrow> nat \<Rightarrow> string" where
  "charAt s i = (if i < length s then [s ! i] else [])"

definition normalizeUrl :: "string \<Rightarrow> string" where
  "normalizeUrl browserUrl =
     (let u1 = trim browserUrl;
          u2 = (if charAt u1 0 \<noteq> ''/'' then ''/'' @ u1 else u1);
          u3 = (if length u2 > 1 \<and> charAt u2 (length u2 - 1) = ''/''
                then take (length u2 - 1) u2 else u2)
      in u3)"

subsection \<open>Segments, links, views and controllers\<close>

text \<open>
  \<open>NavSegment\<close>, \<open>NavLink\<close> and \<open>ViewController\<close>, with the fields the deep linker reads
  and writes. Components and navigation data are opaque: the type variables \<open>'c\<close> and
  \<open>'d\<close>. A field that is \<open>null\<close> or \<open>undefined\<close> is \<open>None\<close>; \<open>defaultHistory\<close> is
  \<open>Some\<close> exactly when \<open>isArray(segment.defaultHistory)\<close> holds.
\<close>

record ('c, 'd) navSegment =
  seg_id :: string
  seg_name :: string
  seg_component :: "'c option"
  seg_data :: "'d option"
  navId :: "string option"
  defaultHistory :: "string list option"

record 'c navLink =
  link_name :: string
  link_component :: "'c option"
  loadChildren :: "string option"

record ('c, 'd) viewController =
  view_component :: 'c
  view_data :: "'d option"
  view_id :: "string option"

record tab =
  tabUrlPath :: "string option"
  tabTitle :: "string option"
  tab_index :: nat

text \<open>
  What \<open>isTabs(navInstance)\<close> tells apart: a tabbed container with its \<open>_tabs\<close>, or a
  navigation controller with its stack of views (index 0 at the bottom). Every controller
  has an \<open>id\<close>; \<open>nav_parent\<close> is the \<open>id\<close> of \<open>nav.parent\<close>, \<open>None\<close> for a controller
  without a parent.
\<close>

datatype ('c, 'd) controller =
    NavController "('c, 'd) viewController list"
  | TabsContainer "tab list"

record ('c, 'd) navInstance =
  nav_id :: string
  nav_parent :: "string option"
  nav_ctrl :: "('c, 'd) controller"

text \<open>The option objects handed to the controllers; a key that is not written is \<open>None\<close>.\<close>

record navOptions =
  opt_id :: "string option"
  animate :: "bool option"
  updateUrl :: "bool option"
  isNavRoot :: "bool option"

text \<open>
  A JavaScript number that holds a count: a natural number that a double represents, or
  \<open>Infinity\<close>.
\<close>

datatype js_number = Finite nat | Infinity

text \<open>
  The calls \<open>_loadViewFromSegment\<close> makes, in order. \<open>PopTo\<close> and \<open>Push\<close> hand the
  \<open>done\<close> callback on to the controller; \<open>Done\<close> is the direct call \<open>done()\<close>.
\<close>

datatype ('c, 'd) nav_call =
    Done
  | Select js_number navOptions
  | PopTo "('c, 'd) viewController" navOptions
  | Push "'c option" "'d option" navOptions

text \<open>
  How a call that returns a promise ends: it throws before returning one, or the promise
  is rejected with a reason, or it is resolved with a value.
\<close>

datatype 'a outcome = Throws string | Rejected string | Resolved 'a

definition isPresent :: "'a option \<Rightarrow> bool" where
  "isPresent val = (val \<noteq> None)"

subsection \<open>Selecting a tab\<close>

text \<open>
  \<open>pathName.match(/tab-(\d+)/)\<close>: the first position of the name at which \<open>tab-\<close> and at
  least one digit start; the capture group is the longest run of digits there.
  \<open>regex_here\<close> tries the pattern at the start of a string, \<open>regex_match\<close> moves through
  the name from left to right and gives the capture group of the first match.
\<close>

definition is_digit :: "char \<Rightarrow> bool" where
  "is_digit c = (48 \<le> (of_char c :: nat) \<and> (of_char c :: nat) \<le> 57)"

definition regex_here :: "string \<Rightarrow> string option" where
  "regex_here s =
     (if take 4 s = ''tab-'' \<and> takeWhile is_digit (drop 4 s) \<noteq> []
      then Some (takeWhile is_digit (drop 4 s)) else None)"

fun regex_match :: "string \<Rightarrow> string option" where
  "regex_match [] = regex_here []"
| "regex_match (c # cs) =
     (case regex_here (c # cs) of Some ds \<Rightarrow> Some ds | None \<Rightarrow> regex_match cs)"

text \<open>
  \<open>parseInt(digits, 10)\<close> on a string of decimal digits is the Number value of the integer
  the digits denote: the integer itself below \<open>2^53\<close>, and above it the nearest integer
  with a significand of 53 bits, a tie going to the even significand, and \<open>Infinity\<close> once
  that is \<open>2^1024\<close> or more. \<open>bit_length n\<close> is the number of binary digits of \<open>n\<close>, so
  \<open>n div 2 ^ (bit_length n - 53)\<close> is the significand before rounding. (Beyond 20
  significant digits ECMAScript lets an engine round the digits it drops before this
  step; the model reads every digit.)
\<close>

function bit_length :: "nat \<Rightarrow> nat" where
  "bit_length n = (if n = 0 then 0 else Suc (bit_length (n div 2)))"
  by pat_completeness auto
termination
  by (relation "measure (\<lambda>n. n)") auto

declare bit_length.simps [simp del]

definition toNumber :: "nat \<Rightarrow> js_number" where
  "toNumber n =
     (if n < 2 ^ 53 then Finite n
      else
        (let e = bit_length n - 53;
             q = n div 2 ^ e;
             r = n mod 2 ^ e;
             half = 2 ^ (e - 1);
             q1 = (if half < r \<or> (r = half \<and> odd q) then q + 1 else q);
             m = q1 * 2 ^ e
         in if m \<ge> 2 ^ 1024 then Infinity else Finite m))"

definition parseInt10 :: "string \<Rightarrow> js_number" where
  "parseInt10 ds = toNumber (foldl (\<lambda>n c. 10 * n + (of_char c - 48)) 0 ds)"

text \<open>\<open>formatUrlPart\<close> is the serializer's \<open>formatUrlPart\<close>, a parameter here.\<close>

definition getSelectedTabIndex ::
  "(string \<Rightarrow> string) \<Rightarrow> tab list \<Rightarrow> string \<Rightarrow> nat \<Rightarrow> js_number" where
  "getSelectedTabIndex formatUrlPart tabs pathName fallbackIndex =
     (case regex_match pathName of
        Some ds \<Rightarrow> parseInt10 ds
      | None \<Rightarrow>
          (case find (\<lambda>t. (isPresent (tabUrlPath t) \<and> tabUrlPath t = Some pathName) \<or>
                          (isPresent (tabTitle t) \<and>
                           map_option formatUrlPart (tabTitle t) = Some pathName)) tabs of
             Some t \<Rightarrow> Finite (tab_index t)
           | None \<Rightarrow> Finite fallbackIndex))"

subsection \<open>Attributing a segment to a controller\<close>

text \<open>
  \<open>initNav\<close> returns the segment of the path that belongs to the controller and writes the
  controller's id into it; the result is the returned segment and the path after the
  write. The loop runs \<open>i\<close> from 1 while \<open>i < path.length\<close>.
\<close>

function initNav_for ::
  "string \<Rightarrow> string \<Rightarrow> ('c, 'd) navSegment list \<Rightarrow> nat
   \<Rightarrow> ('c, 'd) navSegment option \<times> ('c, 'd) navSegment list" where
  "initNav_for nid pid path i =
     (if i < length path then
        (if navId (path ! (i - 1)) = Some pid then
           (let path1 = path[i := (path ! i)\<lparr>navId := Some nid\<rparr>]
            in (Some (path1 ! i), path1))
         else initNav_for nid pid path (i + 1))
      else (None, path))"
  by pat_completeness auto
termination
  by (relation "measure (\<lambda>(nid, pid, path, i). length path - i)") auto

declare initNav_for.simps [simp del]

definition initNav ::
  "('c, 'd) navInstance option \<Rightarrow> ('c, 'd) navSegment list
   \<Rightarrow> ('c, 'd) navSegment option \<times> ('c, 'd) navSegment list" where
  "initNav nav path =
     (case nav of
        None \<Rightarrow> (None, path)
      | Some n \<Rightarrow>
          if length path \<noteq> 0 then
            (case nav_parent n of
               None \<Rightarrow>
                 (let path1 = path[0 := (path ! 0)\<lparr>navId := Some (nav_id n)\<rparr>]
                  in (Some (path1 ! 0), path1))
             | Some pid \<Rightarrow> initNav_for (nav_id n) pid path 1)
          else (None, path))"

subsection \<open>Loading a controller from its segment\<close>

text \<open>
  The loop of \<open>_loadViewFromSegment\<close>: \<open>i\<close> runs from \<open>count = nav.length() - 1\<close> down to 0,
  and the push follows a loop that found no view.
\<close>

function walk_back ::
  "('c, 'd) viewController list \<Rightarrow> ('c, 'd) navSegment \<Rightarrow> int \<Rightarrow> int
   \<Rightarrow> ('c, 'd) nav_call list" where
  "walk_back views segment count i =
     (if i \<ge> 0 then
        (let view = views ! nat i
         in if view_id view = Some (seg_id segment) then
              (if i = count then [Done]
               else [PopTo view \<lparr>opt_id = None, animate = Some False,
                                 updateUrl = Some False, isNavRoot = None\<rparr>])
            else walk_back views segment count (i - 1))
      else [Push (seg_component segment) (seg_data segment)
              \<lparr>opt_id = Some (seg_id segment), animate = Some False,
               updateUrl = Some False, isNavRoot = None\<rparr>])"
  by pat_completeness auto
termination
  by (relation "measure (\<lambda>(views, segment, count, i). nat (i + 1))") auto

declare walk_back.simps [simp del]

definition loadViewFromSegment ::
  "(string \<Rightarrow> string) \<Rightarrow> ('c, 'd) navInstance \<Rightarrow> ('c, 'd) navSegment list
   \<Rightarrow> ('c, 'd) navSegment list \<times> ('c, 'd) nav_call list" where
  "loadViewFromSegment formatUrlPart navInstance path =
     (case initNav (Some navInstance) path of
        (None, path1) \<Rightarrow> (path1, [Done])
      | (Some segment, path1) \<Rightarrow>
          (case nav_ctrl navInstance of
             TabsContainer tabs \<Rightarrow>
               (path1,
                [Select (getSelectedTabIndex formatUrlPart tabs (seg_name segment) 0)
                   \<lparr>opt_id = None, animate = Some False, updateUrl = Some False,
                    isNavRoot = None\<rparr>,
                 Done])
           | NavController views \<Rightarrow>
               (let count = int (length views) - 1
                in (path1, walk_back views segment count count))))"

subsection \<open>Looking components up\<close>

text \<open>
  \<open>getLinkFromName\<close> is the serializer's lookup and \<open>load\<close> the module loader's
  \<open>load(locator)\<close>, whose promise carries the component. \<open>getNavLinkComponent\<close> reads
  \<open>link.component\<close> first, so a link that is \<open>null\<close> makes it throw. The second part of the
  result is the link after the call: a loaded component is stored in it.
\<close>

definition getNavLinkComponent ::
  "(string \<Rightarrow> 'c outcome) \<Rightarrow> 'c navLink option \<Rightarrow> 'c outcome \<times> 'c navLink option" where
  "getNavLinkComponent load link =
     (case link of
        None \<Rightarrow> (Throws ''TypeError'', None)
      | Some l \<Rightarrow>
          (case link_component l of
             Some c \<Rightarrow> (Resolved c, Some l)
           | None \<Rightarrow>
               (case loadChildren l of
                  Some (x # xs) \<Rightarrow>
                    (case load (x # xs) of
                       Resolved c \<Rightarrow> (Resolved c, Some (l\<lparr>link_component := Some c\<rparr>))
                     | Rejected e \<Rightarrow> (Rejected e, Some l)
                     | Throws e \<Rightarrow> (Throws e, Some l))
                | _ \<Rightarrow> (Rejected (''invalid link component: '' @ link_name l), Some l))))"

definition getComponentFromName ::
  "(string \<Rightarrow> 'c navLink option) \<Rightarrow> (string \<Rightarrow> 'c outcome) \<Rightarrow> string
   \<Rightarrow> 'c outcome \<times> 'c navLink option" where
  "getComponentFromName getLinkFromName load componentName =
     (case getLinkFromName componentName of
        Some link \<Rightarrow> getNavLinkComponent load (Some link)
      | None \<Rightarrow> (Rejected (''invalid link: '' @ componentName), None))"

text \<open>
  Modelled from the spec: \<open>convertToViews\<close> of nav-util, which is not among the sources.
  The names of a default history "are resolved into their own view instances (recursively,
  each looked up by name)": each name goes through \<open>getComponentFromName\<close> and gives a view
  of that component without data; the views keep the order of the names, and the first
  name that fails decides how the whole call fails.
\<close>

fun convertToViews ::
  "(string \<Rightarrow> 'c navLink option) \<Rightarrow> (string \<Rightarrow> 'c outcome) \<Rightarrow> string list
   \<Rightarrow> ('c, 'd) viewController list outcome" where
  "convertToViews getLinkFromName load [] = Resolved []"
| "convertToViews getLinkFromName load (page # pages) =
     (case fst (getComponentFromName getLinkFromName load page) of
        Throws e \<Rightarrow> Throws e
      | Rejected e \<Rightarrow> Rejected e
      | Resolved c \<Rightarrow>
          (case convertToViews getLinkFromName load pages of
             Throws e \<Rightarrow> Throws e
           | Rejected e \<Rightarrow> Rejected e
           | Resolved views \<Rightarrow>
               Resolved (\<lparr>view_component = c, view_data = None, view_id = None\<rparr> # views)))"

text \<open>
  \<open>initViews\<close>: the promise of the views, and the segment after the call (the component is
  stored in it). An exception inside a \<open>then\<close> callback rejects the promise.
\<close>

definition initViews ::
  "(string \<Rightarrow> 'c navLink option) \<Rightarrow> (string \<Rightarrow> 'c outcome) \<Rightarrow> ('c, 'd) navSegment
   \<Rightarrow> ('c, 'd) viewController list outcome \<times> ('c, 'd) navSegment" where
  "initViews getLinkFromName load segment =
     (let link = getLinkFromName (seg_name segment)
      in case fst (getNavLinkComponent load link) of
           Throws e \<Rightarrow> (Throws e, segment)
         | Rejected e \<Rightarrow> (Rejected e, segment)
         | Resolved component \<Rightarrow>
             (let segment1 = segment\<lparr>seg_component := Some component\<rparr>;
                  view = \<lparr>view_component = component, view_data = seg_data segment,
                          view_id = Some (seg_id segment)\<rparr>
              in case defaultHistory segment of
                   Some names \<Rightarrow>
                     (case convertToViews getLinkFromName load names of
                        Resolved views \<Rightarrow> (Resolved (views @ [view]), segment1)
                      | Rejected e \<Rightarrow> (Rejected e, segment1)
                      | Throws e \<Rightarrow> (Rejected e, segment1))
                 | None \<Rightarrow> (Resolved [view], segment1)))"

subsection \<open>The deep linker's state and its reactions\<close>

record ('c, 'd) deepLinker =
  segments :: "('c, 'd) navSegment list"
  history :: history
  indexAliasUrl :: "string option"

text \<open>
  What the deep linker asks of its collaborators, in order: the serializer's \<open>parse\<close>, the
  root controller's \<open>goToRoot\<close>, the walk \<open>_loadNavFromPath\<close> from the root controller, and
  the location's \<open>back()\<close> and \<open>go(url)\<close>.
\<close>

datatype ('c, 'd) effect =
    SerializerParse string
  | GoToRoot navOptions
  | LoadNavFromPath "('c, 'd) navInstance"
  | LocationBack
  | LocationGo string

text \<open>
  \<open>_urlChange\<close>. \<open>parse\<close> is the serializer's \<open>parse\<close>, \<open>path\<close> the present
  \<open>location.path()\<close>, \<open>rootNav\<close> what \<open>this._app.getRootNav()\<close> returns.
\<close>

definition urlChange ::
  "(string \<Rightarrow> ('c, 'd) navSegment list) \<Rightarrow> string \<Rightarrow> ('c, 'd) navInstance option
   \<Rightarrow> ('c, 'd) deepLinker \<Rightarrow> string \<Rightarrow> ('c, 'd) deepLinker \<times> ('c, 'd) effect list" where
  "urlChange parse path rootNav linker browserUrl =
     (if \<not> isCurrentUrl (history linker) browserUrl then
        (let linker1 =
               (if isBackUrl (history linker) browserUrl
                then linker\<lparr>history := historyPop path (history linker)\<rparr>
                else linker\<lparr>history := historyPush (history linker) browserUrl\<rparr>)
         in case rootNav of
              None \<Rightarrow> (linker1, [])
            | Some appRootNav \<Rightarrow>
                if browserUrl = ''/'' then
                  (case indexAliasUrl linker1 of
                     Some alias \<Rightarrow>
                       (linker1\<lparr>segments := parse alias\<rparr>,
                        [SerializerParse alias, LoadNavFromPath appRootNav])
                   | None \<Rightarrow>
                       (linker1,
                        [GoToRoot \<lparr>opt_id = None, animate = None, updateUrl = Some False,
                                   isNavRoot = Some True\<rparr>]))
                else
                  (linker1\<lparr>segments := parse browserUrl\<rparr>,
                   [SerializerParse browserUrl, LoadNavFromPath appRootNav]))
      else (linker, []))"

text \<open>
  Modelled from the spec: the constant \<open>DIRECTION_BACK\<close> of nav-util, which is not among
  the sources; the spec names the direction "back".
\<close>

definition DIRECTION_BACK :: string where
  "DIRECTION_BACK = ''back''"

definition updateLocation ::
  "string \<Rightarrow> ('c, 'd) deepLinker \<Rightarrow> string \<Rightarrow> string
   \<Rightarrow> ('c, 'd) deepLinker \<times> ('c, 'd) effect list" where
  "updateLocation path linker browserUrl direction =
     (let browserUrl1 = (if indexAliasUrl linker = Some browserUrl then ''/'' else browserUrl)
      in if direction = DIRECTION_BACK \<and> isBackUrl (history linker) browserUrl1 then
           (linker\<lparr>history := historyPop path (history linker)\<rparr>, [LocationBack])
         else if \<not> isCurrentUrl (history linker) browserUrl1 then
           (linker\<lparr>history := historyPush (history linker) browserUrl1\<rparr>,
            [LocationGo browserUrl1])
         else (linker, []))"

section \<open>Properties\<close>

subsection \<open>The history tracker\<close>

lemma isCurrentUrl_iff: "isCurrentUrl h u \<longleftrightarrow> h \<noteq> [] \<and> last h = u"
  by (cases h rule: rev_cases) (auto simp: isCurrentUrl_def js_at_def)

lemma isBackUrl_iff: "isBackUrl h u \<longleftrightarrow> 2 \<le> length h \<and> last (butlast h) = u"
proof (cases h rule: rev_cases)
  case Nil
  then show ?thesis by (simp add: isBackUrl_def js_at_def)
next
  case (snoc ys y)
  show ?thesis
  proof (cases ys rule: rev_cases)
    case Nil
    with snoc show ?thesis by (simp add: isBackUrl_def js_at_def)
  next
    case (snoc zs z)
    with \<open>h = ys @ [y]\<close> show ?thesis
      by (auto simp: isBackUrl_def js_at_def nth_append butlast_append)
  qed
qed

text \<open>
  C8. The history never exceeds 30 entries: a push onto a history of at most 30 entries
  leaves at most 30 entries, a push that would make 31 drops the oldest entry, and a push
  of the url that is already on top leaves the history as it is.
\<close>

theorem historyPush_bounded:
  "length h \<le> 30 \<Longrightarrow>
     length (historyPush h u) \<le> 30
     \<and> (\<not> isCurrentUrl h u \<and> length h = 30 \<longrightarrow> historyPush h u = tl h @ [u])
     \<and> (\<not> isCurrentUrl h u \<and> length h < 30 \<longrightarrow> historyPush h u = h @ [u])
     \<and> (isCurrentUrl h u \<longrightarrow> historyPush h u = h)"
  by (cases h) (auto simp: historyPush_def Let_def)

theorem historyPush_bounded_witness:
  "length (replicate 30 ''/a'') \<le> 30
   \<and> \<not> isCurrentUrl (replicate 30 ''/a'') ''/b''
   \<and> length (historyPush (replicate 30 ''/a'') ''/b'') = 30
   \<and> historyPush (replicate 30 ''/a'') ''/b'' = replicate 29 ''/a'' @ [''/b'']
   \<and> \<not> isCurrentUrl [''/a''] ''/b''
   \<and> historyPush [''/a''] ''/b'' = [''/a'', ''/b'']
   \<and> isCurrentUrl [''/a'', ''/b''] ''/b''
   \<and> historyPush [''/a'', ''/b''] ''/b'' = [''/a'', ''/b'']"
  using historyPush_bounded [of "replicate 30 ''/a''" "''/b''"]
        historyPush_bounded [of "[''/a'']" "''/b''"]
        historyPush_bounded [of "[''/a'', ''/b'']" "''/b''"]
  by (simp add: isCurrentUrl_iff eval_nat_numeral)

text \<open>
  C9. Popping removes the top entry; when that empties the history it is seeded again with
  the present location, so the history is never empty after a pop.
\<close>

theorem historyPop_reseeds:
  "historyPop path h = (if butlast h = [] then [path] else butlast h)
   \<and> historyPop path h \<noteq> []"
  by (simp add: historyPop_def historyPush_def isCurrentUrl_iff Let_def)

theorem historyPop_reseeds_witness:
  "historyPop ''/x'' [''/a''] = [''/x''] \<and> historyPop ''/x'' [] = [''/x'']
   \<and> historyPop ''/x'' [''/a'', ''/b''] = [''/a'']"
  using historyPop_reseeds [of "''/x''" "[''/a'']"] historyPop_reseeds [of "''/x''" "[]"]
        historyPop_reseeds [of "''/x''" "[''/a'', ''/b'']"]
  by simp

subsection \<open>Normalising twice\<close>

text \<open>
  C3. The values at the empty string, at \<open>/a/\<close> and at \<open>a\<close> are as stated, but one call
  removes one trailing slash only: \<open>/a//\<close> becomes \<open>/a/\<close>, which still ends in a slash
  and which a second call changes again. In the same way the white space that the removed
  slash uncovers stays: \<open>a /\<close> becomes \<open>/a\<close> followed by a space, and a second call
  trims it.
\<close>

theorem normalizeUrl_double_slash:
  "normalizeUrl '''' = ''/'' \<and> normalizeUrl ''/a/'' = ''/a'' \<and> normalizeUrl ''a'' = ''/a''
   \<and> normalizeUrl ''/a//'' = ''/a/''
   \<and> normalizeUrl (normalizeUrl ''/a//'') = ''/a''
   \<and> normalizeUrl (normalizeUrl ''/a//'') \<noteq> normalizeUrl ''/a//''
   \<and> normalizeUrl ''a /'' = ''/a ''
   \<and> normalizeUrl (normalizeUrl ''a /'') = ''/a''"
  by (simp add: normalizeUrl_def trim_def charAt_def js_whitespace_def Let_def)

subsection \<open>Reading the digits\<close>


lemma toNumber_exact: "n < 2 ^ 53 \<Longrightarrow> toNumber n = Finite n"
  by (simp add: toNumber_def)

lemma foldl_decimal:
  "foldl (\<lambda>n c. 10 * n + (of_char c - 48)) 0 ds =
     (\<Sum>i<length ds. (of_char (ds ! i) - 48) * 10 ^ (length ds - Suc i) :: nat)"
proof (induction ds rule: rev_induct)
  case Nil
  then show ?case by simp
next
  case (snoc c ds)
  have "(\<Sum>i<length (ds @ [c]). (of_char ((ds @ [c]) ! i) - 48) * 10 ^ (length (ds @ [c]) - Suc i) :: nat)
      = (\<Sum>i<length ds. (of_char ((ds @ [c]) ! i) - 48) * 10 ^ (length (ds @ [c]) - Suc i))
        + (of_char c - 48)"
    by simp
  also have "(\<Sum>i<length ds. (of_char ((ds @ [c]) ! i) - 48) * 10 ^ (length (ds @ [c]) - Suc i) :: nat)
      = (\<Sum>i<length ds. 10 * ((of_char (ds ! i) - 48) * 10 ^ (length ds - Suc i)))"
  proof (rule sum.cong)
    fix i assume "i \<in> {..<length ds}"
    then have i: "i < length ds" by simp
    then have "length (ds @ [c]) - Suc i = Suc (length ds - Suc i)" by simp
    with i show "(of_char ((ds @ [c]) ! i) - 48) * 10 ^ (length (ds @ [c]) - Suc i)
        = 10 * ((of_char (ds ! i) - 48) * 10 ^ (length ds - Suc i) :: nat)"
      by (simp add: nth_append)
  qed simp
  also have "\<dots> = 10 * (\<Sum>i<length ds. (of_char (ds ! i) - 48) * 10 ^ (length ds - Suc i))"
    by (simp add: sum_distrib_left)
  finally show ?case using snoc.IH by simp
qed

lemma parseInt10_decimal:
  "parseInt10 ds =
     toNumber (\<Sum>i<length ds. (of_char (ds ! i) - 48) * 10 ^ (length ds - Suc i))"
  by (simp only: parseInt10_def foldl_decimal)


text \<open>
  Above \<open>2^53\<close> the result is a significand between \<open>2^52\<close> and \<open>2^53\<close> times the
  power of two that the length of the number fixes, at most half a step away from the
  number; from \<open>2^1024\<close> on it is \<open>Infinity\<close>.
\<close>

lemma bit_length_bounds: "n \<noteq> 0 \<Longrightarrow> 2 ^ (bit_length n - 1) \<le> n \<and> n < 2 ^ bit_length n"
proof (induction n rule: bit_length.induct)
  case (1 n)
  show ?case
  proof (cases "n div 2 = 0")
    case True
    with "1.prems" have "n = 1" by (cases n) auto
    then show ?thesis by (simp add: bit_length.simps [of "Suc 0"] bit_length.simps [of 0])
  next
    case False
    from "1.IH" [OF "1.prems" False]
    have ih: "2 ^ (bit_length (n div 2) - 1) \<le> n div 2" "n div 2 < 2 ^ bit_length (n div 2)"
      by simp_all
    have pos: "bit_length (n div 2) \<noteq> 0"
      using False by (simp add: bit_length.simps [of "n div 2"])
    have bl: "bit_length n = Suc (bit_length (n div 2))"
      using "1.prems" by (simp add: bit_length.simps [of n])
    from pos obtain k where k: "bit_length (n div 2) = Suc k" by (cases "bit_length (n div 2)") auto
    from ih k have "2 ^ k \<le> n div 2" "n div 2 < 2 ^ Suc k" by simp_all
    then have "2 ^ Suc k \<le> n" "n < 2 ^ Suc (Suc k)" by auto
    with bl k show ?thesis by simp
  qed
qed

lemma toNumber_Infinity:
  assumes "2 ^ 1024 \<le> n"
  shows "toNumber n = Infinity"
proof -
  define b where "b = bit_length n"
  define e where "e = b - 53"
  from assms have n0: "n \<noteq> 0" by auto
  from bit_length_bounds [OF n0] have lo: "2 ^ (b - 1) \<le> n" and hi: "n < 2 ^ b"
    by (simp_all add: b_def)
  from assms hi have "(2::nat) ^ 1024 < 2 ^ b" by simp
  then have b: "1024 < b" by (rule power_less_imp_less_exp [rotated]) simp
  then have be: "b - 1 = 52 + e" by (simp add: e_def)
  have "2 ^ (52 + e) \<le> n" using lo by (simp only: be)
  then have "2 ^ 52 * 2 ^ e \<le> n" by (simp only: power_add)
  then have q: "2 ^ 52 \<le> n div 2 ^ e"
    by (simp add: less_eq_div_iff_mult_less_eq)
  have big: "(2::nat) ^ 1024 \<le> 2 ^ 52 * 2 ^ e"
  proof -
    have "(1024::nat) \<le> 52 + e" using b be by simp
    then have "(2::nat) ^ 1024 \<le> 2 ^ (52 + e)" by (rule power_increasing) simp
    then show ?thesis by (simp add: power_add)
  qed
  have m: "2 ^ 1024 \<le> q1 * 2 ^ e" if "n div 2 ^ e \<le> q1" for q1
  proof -
    from q that have "2 ^ 52 \<le> q1" by (rule order_trans)
    then have "2 ^ 52 * 2 ^ e \<le> q1 * 2 ^ e" by (rule mult_le_mono1)
    with big show ?thesis by (rule order_trans)
  qed
  have nlt: "\<not> n < 2 ^ 53" using assms by simp
  show ?thesis
    unfolding toNumber_def Let_def b_def [symmetric] e_def [symmetric]
    using nlt m [of "n div 2 ^ e"] m [of "n div 2 ^ e + 1"] by simp
qed


lemma toNumber_nearest:
  assumes "2 ^ 53 \<le> n" and "toNumber n = Finite m"
  shows "\<exists>q. 2 ^ 52 \<le> q \<and> q \<le> 2 ^ 53 \<and> m = q * 2 ^ (bit_length n - 53)
           \<and> 2 * m \<le> 2 * n + 2 ^ (bit_length n - 53)
           \<and> 2 * n \<le> 2 * m + 2 ^ (bit_length n - 53)"
proof -
  define b where "b = bit_length n"
  define e where "e = b - 53"
  define P :: nat where "P = 2 ^ e"
  define H :: nat where "H = 2 ^ (e - 1)"
  define q where "q = n div P"
  define r where "r = n mod P"
  define q1 where "q1 = (if H < r \<or> (r = H \<and> odd q) then q + 1 else q)"
  from assms have n0: "n \<noteq> 0" by auto
  from bit_length_bounds [OF n0] have lo: "2 ^ (b - 1) \<le> n" and hi: "n < 2 ^ b"
    by (simp_all add: b_def)
  from assms(1) hi have "(2::nat) ^ 53 < 2 ^ b" by (rule le_less_trans)
  then have b: "53 < b" by (rule power_less_imp_less_exp [rotated]) simp
  then have e: "0 < e" and be: "b - 1 = 52 + e" and be': "b = 53 + e" by (simp_all add: e_def)
  have PH: "P = 2 * H" using e by (cases e) (simp_all add: P_def H_def)
  have n: "n = q * P + r" by (simp add: q_def r_def)
  have r: "r < P" by (simp add: r_def P_def)
  have "2 ^ (52 + e) \<le> n" using lo by (simp only: be)
  then have "2 ^ 52 * P \<le> n" by (simp only: power_add P_def)
  then have qlo: "2 ^ 52 \<le> q"
    unfolding q_def by (simp add: less_eq_div_iff_mult_less_eq P_def)
  have "n < 2 ^ (53 + e)" using hi by (simp only: be')
  then have "n < 2 ^ 53 * P" by (simp only: power_add P_def)
  then have qhi: "q < 2 ^ 53"
    unfolding q_def by (simp add: div_less_iff_less_mult P_def)
  have nlt: "\<not> n < 2 ^ 53" using assms(1) by simp
  from assms(2) have m: "m = q1 * P"
    unfolding toNumber_def Let_def b_def [symmetric] e_def [symmetric] P_def [symmetric]
      H_def [symmetric] q_def [symmetric] r_def [symmetric] q1_def [symmetric]
    using nlt by (simp split: if_splits)
  have q1: "q1 = q \<and> r \<le> H \<or> q1 = q + 1 \<and> H \<le> r"
    by (auto simp: q1_def)
  have "2 ^ 52 \<le> q1" "q1 \<le> 2 ^ 53" using q1 qlo qhi by auto
  moreover have "2 * m \<le> 2 * n + P \<and> 2 * n \<le> 2 * m + P"
    using q1 n r PH m by (auto simp: algebra_simps)
  ultimately have "2 ^ 52 \<le> q1 \<and> q1 \<le> 2 ^ 53 \<and> m = q1 * 2 ^ (bit_length n - 53)
           \<and> 2 * m \<le> 2 * n + 2 ^ (bit_length n - 53)
           \<and> 2 * n \<le> 2 * m + 2 ^ (bit_length n - 53)"
    using m by (simp add: P_def e_def b_def)
  then show ?thesis by (rule exI)
qed

lemma toNumber_overflow: "toNumber (10 ^ 309) = Infinity"
  by (rule toNumber_Infinity) simp

subsection \<open>The pattern \<open>tab-<digits>\<close>\<close>

lemma regex_here_Some_iff:
  "regex_here s = Some ds \<longleftrightarrow>
     (\<exists>r. s = ''tab-'' @ ds @ r \<and> ds \<noteq> [] \<and> (\<forall>c\<in>set ds. is_digit c)
          \<and> (r = [] \<or> \<not> is_digit (hd r)))"
proof
  assume h: "regex_here s = Some ds"
  then have t: "take 4 s = ''tab-''" and ds: "ds = takeWhile is_digit (drop 4 s)" and ne: "ds \<noteq> []"
    by (auto simp: regex_here_def split: if_splits)
  have s: "s = take 4 s @ drop 4 s" by simp
  have d: "drop 4 s = ds @ dropWhile is_digit (drop 4 s)" by (simp add: ds)
  have dig: "\<forall>c\<in>set ds. is_digit c" unfolding ds by (auto dest: set_takeWhileD)
  have r: "dropWhile is_digit (drop 4 s) = [] \<or> \<not> is_digit (hd (dropWhile is_digit (drop 4 s)))"
    by (metis hd_dropWhile)
  from s t d have "s = ''tab-'' @ ds @ dropWhile is_digit (drop 4 s)" by metis
  with ne dig r show "\<exists>r. s = ''tab-'' @ ds @ r \<and> ds \<noteq> [] \<and> (\<forall>c\<in>set ds. is_digit c)
          \<and> (r = [] \<or> \<not> is_digit (hd r))" by blast
next
  assume "\<exists>r. s = ''tab-'' @ ds @ r \<and> ds \<noteq> [] \<and> (\<forall>c\<in>set ds. is_digit c)
          \<and> (r = [] \<or> \<not> is_digit (hd r))"
  then obtain r where s: "s = ''tab-'' @ ds @ r" and ne: "ds \<noteq> []"
    and dig: "\<forall>c\<in>set ds. is_digit c" and r: "r = [] \<or> \<not> is_digit (hd r)" by blast
  have "takeWhile is_digit (ds @ r) = ds"
  proof (cases r)
    case Nil
    with dig show ?thesis by simp
  next
    case (Cons a as)
    with r have "\<not> is_digit a" by simp
    with dig Cons show ?thesis by (simp add: takeWhile_tail)
  qed
  with s ne show "regex_here s = Some ds" by (simp add: regex_here_def)
qed

lemma regex_here_None_iff:
  "regex_here s = None \<longleftrightarrow> \<not> (\<exists>d r. s = ''tab-'' @ d # r \<and> is_digit d)"
proof
  assume n: "regex_here s = None"
  show "\<not> (\<exists>d r. s = ''tab-'' @ d # r \<and> is_digit d)"
  proof
    assume "\<exists>d r. s = ''tab-'' @ d # r \<and> is_digit d"
    then obtain d r where "s = ''tab-'' @ d # r" "is_digit d" by blast
    then have "regex_here s \<noteq> None" by (simp add: regex_here_def)
    with n show False by simp
  qed
next
  assume a: "\<not> (\<exists>d r. s = ''tab-'' @ d # r \<and> is_digit d)"
  show "regex_here s = None"
  proof (rule ccontr)
    assume "regex_here s \<noteq> None"
    then obtain ds where "regex_here s = Some ds" by auto
    then obtain r where "s = ''tab-'' @ ds @ r" "ds \<noteq> []" "\<forall>c\<in>set ds. is_digit c"
      using regex_here_Some_iff by blast
    then obtain d ds' where "ds = d # ds'" "is_digit d" "s = ''tab-'' @ d # (ds' @ r)"
      by (cases ds) auto
    with a show False by blast
  qed
qed

lemma regex_match_None_iff:
  "regex_match s = None \<longleftrightarrow> (\<forall>k\<le>length s. regex_here (drop k s) = None)"
proof (induction s)
  case Nil
  then show ?case by simp
next
  case (Cons c cs)
  show ?case
  proof
    assume h: "regex_match (c # cs) = None"
    then have h0: "regex_here (c # cs) = None" and h1: "regex_match cs = None"
      by (auto split: option.splits)
    show "\<forall>k\<le>length (c # cs). regex_here (drop k (c # cs)) = None"
    proof (intro allI impI)
      fix k assume "k \<le> length (c # cs)"
      then show "regex_here (drop k (c # cs)) = None"
        using h0 h1 Cons.IH by (cases k) auto
    qed
  next
    assume a: "\<forall>k\<le>length (c # cs). regex_here (drop k (c # cs)) = None"
    then have "regex_here (drop 0 (c # cs)) = None" by blast
    then have h0: "regex_here (c # cs) = None" by simp
    have "\<forall>k\<le>length cs. regex_here (drop k cs) = None"
    proof (intro allI impI)
      fix k assume "k \<le> length cs"
      then have "Suc k \<le> length (c # cs)" by simp
      with a have "regex_here (drop (Suc k) (c # cs)) = None" by blast
      then show "regex_here (drop k cs) = None" by simp
    qed
    with Cons.IH have "regex_match cs = None" by simp
    with h0 show "regex_match (c # cs) = None" by simp
  qed
qed



lemma regex_here_tab_digit: "is_digit d \<Longrightarrow> regex_here (''tab-'' @ d # rest) \<noteq> None"
  by (simp add: regex_here_def)

lemma regex_here_matchD:
  assumes "regex_here s \<noteq> None"
  shows "\<exists>d r. s = ''tab-'' @ d # r \<and> is_digit d"
proof (rule ccontr)
  assume "\<not> (\<exists>d r. s = ''tab-'' @ d # r \<and> is_digit d)"
  then have "regex_here s = None" by (rule regex_here_None_iff [THEN iffD2])
  with assms show False by simp
qed

lemma tab_pattern_iff_here:
  "(\<exists>pre d rest. s = pre @ ''tab-'' @ d # rest \<and> is_digit d)
     \<longleftrightarrow> (\<exists>k\<le>length s. regex_here (drop k s) \<noteq> None)"
proof
  assume "\<exists>pre d rest. s = pre @ ''tab-'' @ d # rest \<and> is_digit d"
  then obtain pre d rest where s: "s = pre @ ''tab-'' @ d # rest" and d: "is_digit d"
    by (elim exE conjE)
  have "drop (length pre) (pre @ ''tab-'' @ d # rest) = ''tab-'' @ d # rest"
    by simp
  with s have "drop (length pre) s = ''tab-'' @ d # rest" by (simp only:)
  with d have "regex_here (drop (length pre) s) \<noteq> None"
    by (simp only: regex_here_tab_digit not_False_eq_True)
  moreover from s have "length pre \<le> length s" by (simp only: length_append le_add1)
  ultimately have "length pre \<le> length s \<and> regex_here (drop (length pre) s) \<noteq> None"
    by (intro conjI)
  then show "\<exists>k\<le>length s. regex_here (drop k s) \<noteq> None" by (rule exI)
next
  assume "\<exists>k\<le>length s. regex_here (drop k s) \<noteq> None"
  then obtain k where "regex_here (drop k s) \<noteq> None" by (elim exE conjE)
  from regex_here_matchD [OF this] obtain d r where dr: "drop k s = ''tab-'' @ d # r"
    and d: "is_digit d" by (elim exE conjE)
  have "s = take k s @ drop k s" by (simp only: append_take_drop_id)
  with dr have "s = take k s @ ''tab-'' @ d # r" by (simp only:)
  with d have "s = take k s @ ''tab-'' @ d # r \<and> is_digit d" by (intro conjI)
  then show "\<exists>pre d rest. s = pre @ ''tab-'' @ d # rest \<and> is_digit d" by (intro exI)
qed

lemma tab_pattern_iff_match:
  "(\<exists>pre d rest. s = pre @ ''tab-'' @ d # rest \<and> is_digit d) \<longleftrightarrow> regex_match s \<noteq> None"
proof -
  have "regex_match s \<noteq> None \<longleftrightarrow> (\<exists>k\<le>length s. regex_here (drop k s) \<noteq> None)"
    by (simp only: regex_match_None_iff not_all not_imp)
  then show ?thesis by (simp only: tab_pattern_iff_here)
qed



lemma getSelectedTabIndex_unmatched:
  assumes "\<not> (\<exists>pre d rest. pathName = pre @ ''tab-'' @ d # rest \<and> is_digit d)"
  shows "getSelectedTabIndex formatUrlPart tabs pathName fallbackIndex =
          (case find (\<lambda>t. tabUrlPath t = Some pathName \<or>
                          (\<exists>title. tabTitle t = Some title \<and> formatUrlPart title = pathName))
                  tabs of
             Some t \<Rightarrow> Finite (tab_index t)
           | None \<Rightarrow> Finite fallbackIndex)"
proof -
  from assms have m: "regex_match pathName = None"
    by (simp only: tab_pattern_iff_match not_not)
  have p: "(\<lambda>t. (isPresent (tabUrlPath t) \<and> tabUrlPath t = Some pathName) \<or>
                 (isPresent (tabTitle t) \<and>
                  map_option formatUrlPart (tabTitle t) = Some pathName))
         = (\<lambda>t. tabUrlPath t = Some pathName \<or>
                          (\<exists>title. tabTitle t = Some title \<and> formatUrlPart title = pathName))"
    by (auto simp: isPresent_def fun_eq_iff)
  show ?thesis by (simp only: getSelectedTabIndex_def m p option.case)
qed

lemma getSelectedTabIndex_matched:
  assumes "regex_match pathName = Some ds"
  shows "getSelectedTabIndex formatUrlPart tabs pathName fallbackIndex =
           toNumber (\<Sum>i<length ds. (of_char (ds ! i) - 48) * 10 ^ (length ds - Suc i))"
  by (simp only: getSelectedTabIndex_def assms option.case parseInt10_decimal)



subsection \<open>Attribution and the walk down the stack\<close>

lemma initNav_for_Some:
  "initNav_for nid pid path i = (Some seg, path1) \<Longrightarrow>
     \<exists>k. i \<le> k \<and> k < length path \<and> navId (path ! (k - 1)) = Some pid
        \<and> (\<forall>j. i \<le> j \<and> j < k \<longrightarrow> navId (path ! (j - 1)) \<noteq> Some pid)
        \<and> seg = (path ! k)\<lparr>navId := Some nid\<rparr> \<and> path1 = path[k := seg]"
proof (induction nid pid path i rule: initNav_for.induct)
  case (1 nid pid path i)
  show ?case
  proof (cases "i < length path")
    case False
    with "1.prems" show ?thesis by (simp add: initNav_for.simps [of nid pid path i])
  next
    case True
    show ?thesis
    proof (cases "navId (path ! (i - 1)) = Some pid")
      case yes: True
      with True "1.prems" have "seg = (path ! i)\<lparr>navId := Some nid\<rparr>" "path1 = path[i := seg]"
        by (auto simp: initNav_for.simps [of nid pid path i] Let_def)
      with True yes show ?thesis by auto
    next
      case no: False
      with True "1.prems" have "initNav_for nid pid path (i + 1) = (Some seg, path1)"
        by (simp add: initNav_for.simps [of nid pid path i])
      from "1.IH" [OF True no this] obtain k where k: "i + 1 \<le> k" "k < length path"
        "navId (path ! (k - 1)) = Some pid"
        "\<forall>j. i + 1 \<le> j \<and> j < k \<longrightarrow> navId (path ! (j - 1)) \<noteq> Some pid"
        "seg = (path ! k)\<lparr>navId := Some nid\<rparr>" "path1 = path[k := seg]" by blast
      have "\<forall>j. i \<le> j \<and> j < k \<longrightarrow> navId (path ! (j - 1)) \<noteq> Some pid"
      proof (intro allI impI)
        fix j assume "i \<le> j \<and> j < k"
        then show "navId (path ! (j - 1)) \<noteq> Some pid"
          using no k(4) by (cases "j = i") auto
      qed
      with k have "i \<le> k \<and> k < length path \<and> navId (path ! (k - 1)) = Some pid
        \<and> (\<forall>j. i \<le> j \<and> j < k \<longrightarrow> navId (path ! (j - 1)) \<noteq> Some pid)
        \<and> seg = (path ! k)\<lparr>navId := Some nid\<rparr> \<and> path1 = path[k := seg]" by simp
      then show ?thesis by (rule exI)
    qed
  qed
qed

lemma initNav_Some:
  assumes "initNav (Some nav) path = (Some seg, path1)"
  shows "\<exists>k<length path. seg = (path ! k)\<lparr>navId := Some (nav_id nav)\<rparr> \<and> path1 = path[k := seg]
           \<and> (nav_parent nav = None \<longrightarrow> k = 0)
           \<and> (\<forall>pid. nav_parent nav = Some pid \<longrightarrow>
                 1 \<le> k \<and> navId (path ! (k - 1)) = Some pid
                 \<and> (\<forall>j. 1 \<le> j \<and> j < k \<longrightarrow> navId (path ! (j - 1)) \<noteq> Some pid))"
proof (cases "nav_parent nav")
  case None
  with assms have "path \<noteq> []" "seg = (path ! 0)\<lparr>navId := Some (nav_id nav)\<rparr>"
    "path1 = path[0 := seg]"
    by (auto simp: initNav_def Let_def split: if_splits)
  with None show ?thesis by auto
next
  case (Some pid)
  with assms have "initNav_for (nav_id nav) pid path 1 = (Some seg, path1)"
    by (auto simp: initNav_def split: if_splits)
  from initNav_for_Some [OF this] Some show ?thesis by auto
qed

lemma walk_back_none:
  "k < int (length views) \<Longrightarrow>
   (\<forall>j. 0 \<le> j \<and> j \<le> k \<longrightarrow> view_id (views ! nat j) \<noteq> Some (seg_id segment)) \<Longrightarrow>
   walk_back views segment count k =
     [Push (seg_component segment) (seg_data segment)
        \<lparr>opt_id = Some (seg_id segment), animate = Some False, updateUrl = Some False,
         isNavRoot = None\<rparr>]"
proof (induction views segment count k rule: walk_back.induct)
  case (1 views segment count i)
  show ?case
  proof (cases "i \<ge> 0")
    case False
    then show ?thesis by (simp add: walk_back.simps [of views segment count i])
  next
    case True
    with "1.prems" have no: "view_id (views ! nat i) \<noteq> Some (seg_id segment)" by simp
    have "walk_back views segment count (i - 1) =
        [Push (seg_component segment) (seg_data segment)
        \<lparr>opt_id = Some (seg_id segment), animate = Some False, updateUrl = Some False,
         isNavRoot = None\<rparr>]"
      using "1.IH" [OF True refl no] "1.prems" by simp
    with True no show ?thesis by (simp add: walk_back.simps [of views segment count i])
  qed
qed

lemma walk_back_found:
  "0 \<le> i \<Longrightarrow> i \<le> k \<Longrightarrow> view_id (views ! nat i) = Some (seg_id segment) \<Longrightarrow>
   (\<forall>j. i < j \<and> j \<le> k \<longrightarrow> view_id (views ! nat j) \<noteq> Some (seg_id segment)) \<Longrightarrow>
   walk_back views segment count k =
     (if i = count then [Done]
      else [PopTo (views ! nat i) \<lparr>opt_id = None, animate = Some False,
                                   updateUrl = Some False, isNavRoot = None\<rparr>])"
proof (induction views segment count k rule: walk_back.induct)
  case (1 views segment count k)
  from "1.prems" have k0: "k \<ge> 0" by simp
  show ?case
  proof (cases "i = k")
    case True
    with "1.prems" k0 show ?thesis by (simp add: walk_back.simps [of views segment count k])
  next
    case False
    with "1.prems" have lt: "i < k" by simp
    with "1.prems" have no: "view_id (views ! nat k) \<noteq> Some (seg_id segment)" by simp
    have "walk_back views segment count (k - 1) =
     (if i = count then [Done]
      else [PopTo (views ! nat i) \<lparr>opt_id = None, animate = Some False,
                                   updateUrl = Some False, isNavRoot = None\<rparr>])"
      using "1.IH" [OF k0 refl no] "1.prems" lt by simp
    with k0 no show ?thesis by (simp add: walk_back.simps [of views segment count k])
  qed
qed

text \<open>
  C1. For a navigation controller and the segment attributed to it (a segment of the path,
  with the controller's id written into it), the stack is searched from the top down for a
  view with the segment's id. The topmost such view decides: at the top of the stack
  nothing but \<open>done()\<close> is called, below the top \<open>popTo\<close> is called on that view with
  \<open>animate: false\<close> and \<open>updateUrl: false\<close>, and when no view has the id, \<open>push\<close> is called
  with the segment's component and data, the segment's id as \<open>id\<close>, \<open>animate: false\<close> and
  \<open>updateUrl: false\<close>.
\<close>

theorem loadViewFromSegment_stack:
  assumes "nav_ctrl nav = NavController views"
    and "initNav (Some nav) path = (Some segment, path1)"
  shows "(\<exists>k<length path. segment = (path ! k)\<lparr>navId := Some (nav_id nav)\<rparr>)
     \<and> (\<forall>i. i < length views \<and> view_id (views ! i) = Some (seg_id segment)
             \<and> (\<forall>j. i < j \<and> j < length views \<longrightarrow> view_id (views ! j) \<noteq> Some (seg_id segment))
           \<longrightarrow> snd (loadViewFromSegment formatUrlPart nav path) =
                 (if i = length views - 1 then [Done]
                  else [PopTo (views ! i) \<lparr>opt_id = None, animate = Some False,
                                           updateUrl = Some False, isNavRoot = None\<rparr>]))
     \<and> ((\<forall>v\<in>set views. view_id v \<noteq> Some (seg_id segment))
           \<longrightarrow> snd (loadViewFromSegment formatUrlPart nav path) =
                 [Push (seg_component segment) (seg_data segment)
                    \<lparr>opt_id = Some (seg_id segment), animate = Some False,
                     updateUrl = Some False, isNavRoot = None\<rparr>])"
proof (intro conjI allI impI)
  from initNav_Some [OF assms(2)]
  show "\<exists>k<length path. segment = (path ! k)\<lparr>navId := Some (nav_id nav)\<rparr>" by blast
next
  fix i
  assume a: "i < length views \<and> view_id (views ! i) = Some (seg_id segment)
             \<and> (\<forall>j. i < j \<and> j < length views \<longrightarrow> view_id (views ! j) \<noteq> Some (seg_id segment))"
  have run: "snd (loadViewFromSegment formatUrlPart nav path) =
      walk_back views segment (int (length views) - 1) (int (length views) - 1)"
    using assms by (simp add: loadViewFromSegment_def Let_def)
  have above: "\<forall>j. int i < j \<and> j \<le> int (length views) - 1
          \<longrightarrow> view_id (views ! nat j) \<noteq> Some (seg_id segment)"
  proof (intro allI impI)
    fix j assume j: "int i < j \<and> j \<le> int (length views) - 1"
    then have "i < nat j \<and> nat j < length views" by auto
    with a show "view_id (views ! nat j) \<noteq> Some (seg_id segment)" by blast
  qed
  have "walk_back views segment (int (length views) - 1) (int (length views) - 1) =
     (if int i = int (length views) - 1 then [Done]
      else [PopTo (views ! nat (int i)) \<lparr>opt_id = None, animate = Some False,
                                   updateUrl = Some False, isNavRoot = None\<rparr>])"
    using a above by (intro walk_back_found) auto
  moreover have "int i = int (length views) - 1 \<longleftrightarrow> i = length views - 1"
    using a by auto
  ultimately show "snd (loadViewFromSegment formatUrlPart nav path) =
                 (if i = length views - 1 then [Done]
                  else [PopTo (views ! i) \<lparr>opt_id = None, animate = Some False,
                                           updateUrl = Some False, isNavRoot = None\<rparr>])"
    using run by simp
next
  assume a: "\<forall>v\<in>set views. view_id v \<noteq> Some (seg_id segment)"
  have run: "snd (loadViewFromSegment formatUrlPart nav path) =
      walk_back views segment (int (length views) - 1) (int (length views) - 1)"
    using assms by (simp add: loadViewFromSegment_def Let_def)
  have "\<forall>j. 0 \<le> j \<and> j \<le> int (length views) - 1
          \<longrightarrow> view_id (views ! nat j) \<noteq> Some (seg_id segment)"
  proof (intro allI impI)
    fix j :: int assume "0 \<le> j \<and> j \<le> int (length views) - 1"
    then have "nat j < length views" by auto
    then have "views ! nat j \<in> set views" by simp
    with a show "view_id (views ! nat j) \<noteq> Some (seg_id segment)" by blast
  qed
  then have "walk_back views segment (int (length views) - 1) (int (length views) - 1) =
     [Push (seg_component segment) (seg_data segment)
        \<lparr>opt_id = Some (seg_id segment), animate = Some False, updateUrl = Some False,
         isNavRoot = None\<rparr>]"
    by (intro walk_back_none) auto
  with run show "snd (loadViewFromSegment formatUrlPart nav path) =
                 [Push (seg_component segment) (seg_data segment)
                    \<lparr>opt_id = Some (seg_id segment), animate = Some False,
                     updateUrl = Some False, isNavRoot = None\<rparr>]" by simp
qed


theorem loadViewFromSegment_stack_witness:
  "initNav (Some \<lparr>nav_id = ''n0'', nav_parent = None,
                   nav_ctrl = NavController
                     [\<lparr>view_component = ''A'', view_data = None :: string option, view_id = Some ''a''\<rparr>,
                      \<lparr>view_component = ''B'', view_data = None, view_id = Some ''b''\<rparr>,
                      \<lparr>view_component = ''C'', view_data = None, view_id = Some ''c''\<rparr>]\<rparr>)
      [\<lparr>seg_id = ''b'', seg_name = ''page-b'', seg_component = Some ''B'', seg_data = None,
        navId = None, defaultHistory = None\<rparr>]
    = (Some \<lparr>seg_id = ''b'', seg_name = ''page-b'', seg_component = Some ''B'', seg_data = None,
             navId = Some ''n0'', defaultHistory = None\<rparr>,
       [\<lparr>seg_id = ''b'', seg_name = ''page-b'', seg_component = Some ''B'', seg_data = None,
         navId = Some ''n0'', defaultHistory = None\<rparr>])
   \<and> snd (loadViewFromSegment id
        \<lparr>nav_id = ''n0'', nav_parent = None,
         nav_ctrl = NavController
           [\<lparr>view_component = ''A'', view_data = None :: string option, view_id = Some ''a''\<rparr>,
            \<lparr>view_component = ''B'', view_data = None, view_id = Some ''b''\<rparr>,
            \<lparr>view_component = ''C'', view_data = None, view_id = Some ''c''\<rparr>]\<rparr>
        [\<lparr>seg_id = ''b'', seg_name = ''page-b'', seg_component = Some ''B'', seg_data = None,
          navId = None, defaultHistory = None\<rparr>])
      = [PopTo \<lparr>view_component = ''B'', view_data = None, view_id = Some ''b''\<rparr>
           \<lparr>opt_id = None, animate = Some False, updateUrl = Some False, isNavRoot = None\<rparr>]
   \<and> snd (loadViewFromSegment id
        \<lparr>nav_id = ''n0'', nav_parent = None,
         nav_ctrl = NavController
           [\<lparr>view_component = ''A'', view_data = None :: string option, view_id = Some ''a''\<rparr>,
            \<lparr>view_component = ''B'', view_data = None, view_id = Some ''b''\<rparr>,
            \<lparr>view_component = ''C'', view_data = None, view_id = Some ''c''\<rparr>]\<rparr>
        [\<lparr>seg_id = ''z'', seg_name = ''page-z'', seg_component = Some ''Z'', seg_data = None,
          navId = None, defaultHistory = None\<rparr>])
      = [Push (Some ''Z'') None
           \<lparr>opt_id = Some ''z'', animate = Some False, updateUrl = Some False, isNavRoot = None\<rparr>]
   \<and> snd (loadViewFromSegment id
        \<lparr>nav_id = ''n0'', nav_parent = None,
         nav_ctrl = NavController
           [\<lparr>view_component = ''A'', view_data = None :: string option, view_id = Some ''a''\<rparr>,
            \<lparr>view_component = ''B'', view_data = None, view_id = Some ''b''\<rparr>,
            \<lparr>view_component = ''C'', view_data = None, view_id = Some ''c''\<rparr>]\<rparr>
        [\<lparr>seg_id = ''c'', seg_name = ''page-c'', seg_component = Some ''C'', seg_data = None,
          navId = None, defaultHistory = None\<rparr>])
      = [Done]"
proof -
  define views :: "(string, string) viewController list" where
    "views = [\<lparr>view_component = ''A'', view_data = None, view_id = Some ''a''\<rparr>,
              \<lparr>view_component = ''B'', view_data = None, view_id = Some ''b''\<rparr>,
              \<lparr>view_component = ''C'', view_data = None, view_id = Some ''c''\<rparr>]"
  define nav :: "(string, string) navInstance" where
    "nav = \<lparr>nav_id = ''n0'', nav_parent = None, nav_ctrl = NavController views\<rparr>"
  define sb :: "(string, string) navSegment" where
    "sb = \<lparr>seg_id = ''b'', seg_name = ''page-b'', seg_component = Some ''B'', seg_data = None,
           navId = None, defaultHistory = None\<rparr>"
  define sz :: "(string, string) navSegment" where
    "sz = \<lparr>seg_id = ''z'', seg_name = ''page-z'', seg_component = Some ''Z'', seg_data = None,
           navId = None, defaultHistory = None\<rparr>"
  define sc :: "(string, string) navSegment" where
    "sc = \<lparr>seg_id = ''c'', seg_name = ''page-c'', seg_component = Some ''C'', seg_data = None,
           navId = None, defaultHistory = None\<rparr>"
  have c: "nav_ctrl nav = NavController views" by (simp add: nav_def)
  have ic: "initNav (Some nav) [sc] = (Some (sc\<lparr>navId := Some ''n0''\<rparr>), [sc\<lparr>navId := Some ''n0''\<rparr>])"
    by (simp add: initNav_def nav_def Let_def)
  have hc: "2 < length views \<and> view_id (views ! 2) = Some (seg_id (sc\<lparr>navId := Some ''n0''\<rparr>))
      \<and> (\<forall>j. 2 < j \<and> j < length views \<longrightarrow> view_id (views ! j) \<noteq> Some (seg_id (sc\<lparr>navId := Some ''n0''\<rparr>)))"
    by (auto simp: views_def sc_def nth_Cons')
  have rc: "snd (loadViewFromSegment id nav [sc]) = [Done]"
    using loadViewFromSegment_stack [OF c ic, of id, THEN conjunct2, THEN conjunct1,
        THEN spec, of 2, THEN mp, OF hc]
    by (simp add: views_def)
  have ib: "initNav (Some nav) [sb] = (Some (sb\<lparr>navId := Some ''n0''\<rparr>), [sb\<lparr>navId := Some ''n0''\<rparr>])"
    by (simp add: initNav_def nav_def Let_def)
  have iz: "initNav (Some nav) [sz] = (Some (sz\<lparr>navId := Some ''n0''\<rparr>), [sz\<lparr>navId := Some ''n0''\<rparr>])"
    by (simp add: initNav_def nav_def Let_def)
  have hb: "1 < length views \<and> view_id (views ! 1) = Some (seg_id (sb\<lparr>navId := Some ''n0''\<rparr>))
      \<and> (\<forall>j. 1 < j \<and> j < length views \<longrightarrow> view_id (views ! j) \<noteq> Some (seg_id (sb\<lparr>navId := Some ''n0''\<rparr>)))"
    by (auto simp: views_def sb_def nth_Cons')
  have hz: "\<forall>v\<in>set views. view_id v \<noteq> Some (seg_id (sz\<lparr>navId := Some ''n0''\<rparr>))"
    by (simp add: views_def sz_def)
  have rb: "snd (loadViewFromSegment id nav [sb]) =
      [PopTo (views ! 1) \<lparr>opt_id = None, animate = Some False, updateUrl = Some False,
                          isNavRoot = None\<rparr>]"
    using loadViewFromSegment_stack [OF c ib, of id, THEN conjunct2, THEN conjunct1,
        THEN spec, of 1, THEN mp, OF hb]
    by (simp add: views_def)
  have rz: "snd (loadViewFromSegment id nav [sz]) =
      [Push (Some ''Z'') None
           \<lparr>opt_id = Some ''z'', animate = Some False, updateUrl = Some False, isNavRoot = None\<rparr>]"
    using loadViewFromSegment_stack [OF c iz, of id, THEN conjunct2, THEN conjunct2,
        THEN mp, OF hz]
    by (simp add: sz_def)
  show ?thesis
    using ib rb rz rc by (simp add: nav_def views_def sb_def sz_def sc_def)
qed

subsection \<open>Tabbed containers\<close>

lemma regex_match_whole:
  assumes "ds \<noteq> []" and "\<forall>c\<in>set ds. is_digit c"
  shows "regex_match (''tab-'' @ ds) = Some ds"
proof -
  have "''tab-'' @ ds = ''tab-'' @ ds @ [] \<and> ds \<noteq> [] \<and> (\<forall>c\<in>set ds. is_digit c)
      \<and> ([] = [] \<or> \<not> is_digit (hd []))"
    using assms by simp
  then have "\<exists>r. ''tab-'' @ ds = ''tab-'' @ ds @ r \<and> ds \<noteq> [] \<and> (\<forall>c\<in>set ds. is_digit c)
      \<and> (r = [] \<or> \<not> is_digit (hd r))" by (rule exI)
  then have "regex_here (''tab-'' @ ds) = Some ds" by (rule regex_here_Some_iff [THEN iffD2])
  then show ?thesis by simp
qed

text \<open>
  C7, as the code has it. A tabbed container with an attributed segment gets one
  \<open>select\<close> with \<open>animate: false\<close> and \<open>updateUrl: false\<close>, then \<open>done()\<close>, and nothing is
  pushed or popped. When the segment name holds no \<open>tab-<digits>\<close>, the index selected is
  that of the first tab whose \<open>tabUrlPath\<close> is the name or, failing that, whose formatted
  \<open>tabTitle\<close> is the name, and 0 when there is no such tab. When the name is
  \<open>tab-<digits>\<close> and the digits denote a number below \<open>2^53\<close>, the index selected is
  that number.
\<close>

theorem loadViewFromSegment_tabs:
  assumes "nav_ctrl nav = TabsContainer tabs"
    and "initNav (Some nav) path = (Some segment, path1)"
  shows "snd (loadViewFromSegment formatUrlPart nav path) =
           [Select (getSelectedTabIndex formatUrlPart tabs (seg_name segment) 0)
              \<lparr>opt_id = None, animate = Some False, updateUrl = Some False, isNavRoot = None\<rparr>,
            Done]
     \<and> (\<not> (\<exists>pre d rest. seg_name segment = pre @ ''tab-'' @ d # rest \<and> is_digit d) \<longrightarrow>
          (\<forall>k. k < length tabs
                \<and> (tabUrlPath (tabs ! k) = Some (seg_name segment) \<or>
                   (\<exists>title. tabTitle (tabs ! k) = Some title
                            \<and> formatUrlPart title = seg_name segment))
                \<and> (\<forall>j<k. \<not> (tabUrlPath (tabs ! j) = Some (seg_name segment) \<or>
                              (\<exists>title. tabTitle (tabs ! j) = Some title
                                       \<and> formatUrlPart title = seg_name segment)))
              \<longrightarrow> getSelectedTabIndex formatUrlPart tabs (seg_name segment) 0
                    = Finite (tab_index (tabs ! k)))
          \<and> ((\<forall>t\<in>set tabs. \<not> (tabUrlPath t = Some (seg_name segment) \<or>
                                (\<exists>title. tabTitle t = Some title
                                         \<and> formatUrlPart title = seg_name segment)))
              \<longrightarrow> getSelectedTabIndex formatUrlPart tabs (seg_name segment) 0 = Finite 0))
     \<and> (\<forall>ds. seg_name segment = ''tab-'' @ ds \<and> ds \<noteq> [] \<and> (\<forall>c\<in>set ds. is_digit c)
             \<and> (\<Sum>i<length ds. (of_char (ds ! i) - 48) * 10 ^ (length ds - Suc i)) < (2::nat) ^ 53
           \<longrightarrow> getSelectedTabIndex formatUrlPart tabs (seg_name segment) 0
                 = Finite (\<Sum>i<length ds. (of_char (ds ! i) - 48) * 10 ^ (length ds - Suc i)))"
proof (intro conjI allI impI)
  show "snd (loadViewFromSegment formatUrlPart nav path) =
           [Select (getSelectedTabIndex formatUrlPart tabs (seg_name segment) 0)
              \<lparr>opt_id = None, animate = Some False, updateUrl = Some False, isNavRoot = None\<rparr>,
            Done]"
    using assms by (simp add: loadViewFromSegment_def)
next
  fix k
  assume n: "\<not> (\<exists>pre d rest. seg_name segment = pre @ ''tab-'' @ d # rest \<and> is_digit d)"
  assume k: "k < length tabs
                \<and> (tabUrlPath (tabs ! k) = Some (seg_name segment) \<or>
                   (\<exists>title. tabTitle (tabs ! k) = Some title
                            \<and> formatUrlPart title = seg_name segment))
                \<and> (\<forall>j<k. \<not> (tabUrlPath (tabs ! j) = Some (seg_name segment) \<or>
                              (\<exists>title. tabTitle (tabs ! j) = Some title
                                       \<and> formatUrlPart title = seg_name segment)))"
  then have "find (\<lambda>t. tabUrlPath t = Some (seg_name segment) \<or>
                        (\<exists>title. tabTitle t = Some title \<and> formatUrlPart title = seg_name segment))
               tabs = Some (tabs ! k)"
    unfolding find_Some_iff by (intro exI [of _ k]) simp
  then show "getSelectedTabIndex formatUrlPart tabs (seg_name segment) 0
      = Finite (tab_index (tabs ! k))"
    by (simp only: getSelectedTabIndex_unmatched [OF n] option.case)
next
  assume n: "\<not> (\<exists>pre d rest. seg_name segment = pre @ ''tab-'' @ d # rest \<and> is_digit d)"
  assume "\<forall>t\<in>set tabs. \<not> (tabUrlPath t = Some (seg_name segment) \<or>
                                (\<exists>title. tabTitle t = Some title
                                         \<and> formatUrlPart title = seg_name segment))"
  then have "find (\<lambda>t. tabUrlPath t = Some (seg_name segment) \<or>
                        (\<exists>title. tabTitle t = Some title \<and> formatUrlPart title = seg_name segment))
               tabs = None"
    unfolding find_None_iff by simp
  then show "getSelectedTabIndex formatUrlPart tabs (seg_name segment) 0 = Finite 0"
    by (simp only: getSelectedTabIndex_unmatched [OF n] option.case)
next
  fix ds
  assume a: "seg_name segment = ''tab-'' @ ds \<and> ds \<noteq> [] \<and> (\<forall>c\<in>set ds. is_digit c)
             \<and> (\<Sum>i<length ds. (of_char (ds ! i) - 48) * 10 ^ (length ds - Suc i)) < (2::nat) ^ 53"
  then have "regex_match (''tab-'' @ ds) = Some ds" by (intro regex_match_whole) simp_all
  with a have "regex_match (seg_name segment) = Some ds" by (simp only:)
  then have "getSelectedTabIndex formatUrlPart tabs (seg_name segment) 0
      = toNumber (\<Sum>i<length ds. (of_char (ds ! i) - 48) * 10 ^ (length ds - Suc i))"
    by (rule getSelectedTabIndex_matched)
  moreover from a
  have "toNumber (\<Sum>i<length ds. (of_char (ds ! i) - 48) * 10 ^ (length ds - Suc i))
      = Finite (\<Sum>i<length ds. (of_char (ds ! i) - 48) * 10 ^ (length ds - Suc i))"
    by (intro toNumber_exact) simp
  ultimately show "getSelectedTabIndex formatUrlPart tabs (seg_name segment) 0
      = Finite (\<Sum>i<length ds. (of_char (ds ! i) - 48) * 10 ^ (length ds - Suc i))"
    by (rule trans)
qed


theorem loadViewFromSegment_tabs_witness:
  "snd (loadViewFromSegment id
        \<lparr>nav_id = ''t0'', nav_parent = None,
         nav_ctrl = (TabsContainer
           [\<lparr>tabUrlPath = Some ''home'', tabTitle = None, tab_index = 0\<rparr>,
            \<lparr>tabUrlPath = Some ''settings'', tabTitle = None, tab_index = 1\<rparr>,
            \<lparr>tabUrlPath = None, tabTitle = Some ''profile'', tab_index = 2\<rparr>]
           :: (string, string) controller)\<rparr>
        [\<lparr>seg_id = ''settings'', seg_name = ''settings'', seg_component = None, seg_data = None,
          navId = None, defaultHistory = None\<rparr>])
      = [Select (Finite 1) \<lparr>opt_id = None, animate = Some False, updateUrl = Some False,
                   isNavRoot = None\<rparr>, Done]
   \<and> snd (loadViewFromSegment id
        \<lparr>nav_id = ''t0'', nav_parent = None,
         nav_ctrl = (TabsContainer
           [\<lparr>tabUrlPath = Some ''home'', tabTitle = None, tab_index = 0\<rparr>,
            \<lparr>tabUrlPath = Some ''settings'', tabTitle = None, tab_index = 1\<rparr>,
            \<lparr>tabUrlPath = None, tabTitle = Some ''profile'', tab_index = 2\<rparr>]
           :: (string, string) controller)\<rparr>
        [\<lparr>seg_id = ''about'', seg_name = ''about'', seg_component = None, seg_data = None,
          navId = None, defaultHistory = None\<rparr>])
      = [Select (Finite 0) \<lparr>opt_id = None, animate = Some False, updateUrl = Some False,
                   isNavRoot = None\<rparr>, Done]
   \<and> snd (loadViewFromSegment id
        \<lparr>nav_id = ''t0'', nav_parent = None,
         nav_ctrl = (TabsContainer
           [\<lparr>tabUrlPath = Some ''home'', tabTitle = None, tab_index = 0\<rparr>,
            \<lparr>tabUrlPath = Some ''settings'', tabTitle = None, tab_index = 1\<rparr>,
            \<lparr>tabUrlPath = None, tabTitle = Some ''profile'', tab_index = 2\<rparr>]
           :: (string, string) controller)\<rparr>
        [\<lparr>seg_id = ''tab-2'', seg_name = ''tab-2'', seg_component = None, seg_data = None,
          navId = None, defaultHistory = None\<rparr>])
      = [Select (Finite 2) \<lparr>opt_id = None, animate = Some False, updateUrl = Some False,
                   isNavRoot = None\<rparr>, Done]"
proof -
  define tabs where
    "tabs = [\<lparr>tabUrlPath = Some ''home'', tabTitle = None, tab_index = 0\<rparr>,
             \<lparr>tabUrlPath = Some ''settings'', tabTitle = None, tab_index = 1\<rparr>,
             \<lparr>tabUrlPath = None, tabTitle = Some ''profile'', tab_index = 2\<rparr>]"
  define nav :: "(string, string) navInstance" where
    "nav = \<lparr>nav_id = ''t0'', nav_parent = None, nav_ctrl = TabsContainer tabs\<rparr>"
  define seg :: "string \<Rightarrow> (string, string) navSegment" where
    "seg = (\<lambda>n. \<lparr>seg_id = n, seg_name = n, seg_component = None, seg_data = None,
                 navId = None, defaultHistory = None\<rparr>)"
  have c: "nav_ctrl nav = TabsContainer tabs" by (simp add: nav_def)
  have i: "initNav (Some nav) [seg n] = (Some ((seg n)\<lparr>navId := Some ''t0''\<rparr>),
      [(seg n)\<lparr>navId := Some ''t0''\<rparr>])" for n
    by (simp add: initNav_def nav_def Let_def)
  have nm: "seg_name ((seg n)\<lparr>navId := Some ''t0''\<rparr>) = n" for n by (simp add: seg_def)
  note t1 = loadViewFromSegment_tabs [where formatUrlPart = id, OF c i [of "''settings''"],
      unfolded nm]
  note t2 = loadViewFromSegment_tabs [where formatUrlPart = id, OF c i [of "''about''"],
      unfolded nm]
  note t3 = loadViewFromSegment_tabs [where formatUrlPart = id, OF c i [of "''tab-2''"],
      unfolded nm]
  have n1: "\<not> (\<exists>pre d rest. ''settings'' = pre @ ''tab-'' @ d # rest \<and> is_digit d)"
    unfolding tab_pattern_iff_match by (simp add: regex_here_def is_digit_def)
  have n2: "\<not> (\<exists>pre d rest. ''about'' = pre @ ''tab-'' @ d # rest \<and> is_digit d)"
    unfolding tab_pattern_iff_match by (simp add: regex_here_def is_digit_def)
  have k1: "1 < length tabs
                \<and> (tabUrlPath (tabs ! 1) = Some ''settings'' \<or>
                   (\<exists>title. tabTitle (tabs ! 1) = Some title \<and> id title = ''settings''))
                \<and> (\<forall>j<1. \<not> (tabUrlPath (tabs ! j) = Some ''settings'' \<or>
                              (\<exists>title. tabTitle (tabs ! j) = Some title
                                       \<and> id title = ''settings'')))"
    by (simp add: tabs_def)
  have a2: "\<forall>t\<in>set tabs. \<not> (tabUrlPath t = Some ''about'' \<or>
                                (\<exists>title. tabTitle t = Some title \<and> id title = ''about''))"
    by (simp add: tabs_def)
  have d3: "''tab-2'' = ''tab-'' @ ''2'' \<and> ''2'' \<noteq> [] \<and> (\<forall>c\<in>set ''2''. is_digit c)
      \<and> (\<Sum>i<length ''2''. (of_char (''2'' ! i) - 48) * 10 ^ (length ''2'' - Suc i)) < (2::nat) ^ 53"
    by (simp add: is_digit_def)
  have g1: "getSelectedTabIndex id tabs ''settings'' 0 = Finite 1"
    using t1 [THEN conjunct2, THEN conjunct1, THEN mp, OF n1,
             THEN conjunct1, THEN spec, of 1, THEN mp, OF k1]
    by (simp add: tabs_def)
  have g2: "getSelectedTabIndex id tabs ''about'' 0 = Finite 0"
    using t2 [THEN conjunct2, THEN conjunct1, THEN mp, OF n2,
             THEN conjunct2, THEN mp, OF a2] .
  have g3: "getSelectedTabIndex id tabs ''tab-2'' 0 = Finite 2"
    using t3 [THEN conjunct2, THEN conjunct2, THEN spec, of "''2''",
             THEN mp, OF d3]
    by simp
  have "snd (loadViewFromSegment id nav [seg ''settings'']) =
      [Select (Finite 1) \<lparr>opt_id = None, animate = Some False, updateUrl = Some False,
                 isNavRoot = None\<rparr>, Done]
    \<and> snd (loadViewFromSegment id nav [seg ''about'']) =
      [Select (Finite 0) \<lparr>opt_id = None, animate = Some False, updateUrl = Some False,
                 isNavRoot = None\<rparr>, Done]
    \<and> snd (loadViewFromSegment id nav [seg ''tab-2'']) =
      [Select (Finite 2) \<lparr>opt_id = None, animate = Some False, updateUrl = Some False,
                 isNavRoot = None\<rparr>, Done]"
    using t1 [THEN conjunct1] t2 [THEN conjunct1] t3 [THEN conjunct1]
    by (simp only: g1 g2 g3 simp_thms)
  then show ?thesis by (simp only: nav_def tabs_def seg_def)
qed

theorem loadViewFromSegment_tabs_counterexample:
  "snd (loadViewFromSegment id
        \<lparr>nav_id = ''t0'', nav_parent = None,
         nav_ctrl = (TabsContainer
           [\<lparr>tabUrlPath = None, tabTitle = None, tab_index = 0\<rparr>,
            \<lparr>tabUrlPath = None, tabTitle = None, tab_index = 1\<rparr>]
           :: (string, string) controller)\<rparr>
        [\<lparr>seg_id = ''tab-1'', seg_name = ''tab-1'', seg_component = None, seg_data = None,
          navId = None, defaultHistory = None\<rparr>])
      = [Select (Finite 1) \<lparr>opt_id = None, animate = Some False, updateUrl = Some False,
                   isNavRoot = None\<rparr>, Done]
   \<and> snd (loadViewFromSegment id
        \<lparr>nav_id = ''t0'', nav_parent = None,
         nav_ctrl = (TabsContainer
           [\<lparr>tabUrlPath = Some ''tab-1'', tabTitle = None, tab_index = 0\<rparr>,
            \<lparr>tabUrlPath = Some ''settings'', tabTitle = None, tab_index = 1\<rparr>]
           :: (string, string) controller)\<rparr>
        [\<lparr>seg_id = ''tab-1'', seg_name = ''tab-1'', seg_component = None, seg_data = None,
          navId = None, defaultHistory = None\<rparr>])
      = [Select (Finite 1) \<lparr>opt_id = None, animate = Some False, updateUrl = Some False,
                   isNavRoot = None\<rparr>, Done]"
  by (simp add: loadViewFromSegment_def initNav_def Let_def getSelectedTabIndex_def
      regex_here_def is_digit_def parseInt10_def toNumber_def)

subsection \<open>Reactions to a change of location\<close>

lemma historyPop_back: "2 \<le> length h \<Longrightarrow> historyPop path h = butlast h"
  by (cases h rule: rev_cases) (auto simp: historyPop_def Let_def)

lemma history_urlChange:
  "history (fst (urlChange parse path rootNav linker u)) =
     (if isCurrentUrl (history linker) u then history linker
      else if isBackUrl (history linker) u then historyPop path (history linker)
      else historyPush (history linker) u)"
  by (simp add: urlChange_def Let_def split: option.splits)

text \<open>
  C2. A url equal to the top entry of the history changes nothing: the state is returned
  as it was and nothing is asked of the serializer or of the controllers. Otherwise a url
  equal to the entry below the top removes the top entry, and any other url is pushed
  (appended, the oldest entry leaving when the length would pass 30).
\<close>

theorem urlChange_classifies:
  "(history linker \<noteq> [] \<and> last (history linker) = u \<longrightarrow>
      urlChange parse path rootNav linker u = (linker, []))
   \<and> (\<not> (history linker \<noteq> [] \<and> last (history linker) = u)
        \<and> 2 \<le> length (history linker) \<and> last (butlast (history linker)) = u \<longrightarrow>
      history (fst (urlChange parse path rootNav linker u)) = butlast (history linker))
   \<and> (\<not> (history linker \<noteq> [] \<and> last (history linker) = u)
        \<and> \<not> (2 \<le> length (history linker) \<and> last (butlast (history linker)) = u) \<longrightarrow>
      history (fst (urlChange parse path rootNav linker u)) = historyPush (history linker) u
      \<and> historyPush (history linker) u =
          (if length (history linker) < 30 then history linker @ [u]
           else tl (history linker @ [u])))"
proof (intro conjI impI)
  assume "history linker \<noteq> [] \<and> last (history linker) = u"
  then have "isCurrentUrl (history linker) u" by (simp add: isCurrentUrl_iff)
  then show "urlChange parse path rootNav linker u = (linker, [])"
    by (simp add: urlChange_def)
next
  assume a: "\<not> (history linker \<noteq> [] \<and> last (history linker) = u)
        \<and> 2 \<le> length (history linker) \<and> last (butlast (history linker)) = u"
  then have "\<not> isCurrentUrl (history linker) u" "isBackUrl (history linker) u"
    by (simp_all add: isCurrentUrl_iff isBackUrl_iff)
  with a show "history (fst (urlChange parse path rootNav linker u)) = butlast (history linker)"
    by (simp add: history_urlChange historyPop_back)
next
  assume a: "\<not> (history linker \<noteq> [] \<and> last (history linker) = u)
        \<and> \<not> (2 \<le> length (history linker) \<and> last (butlast (history linker)) = u)"
  then have "\<not> isCurrentUrl (history linker) u" "\<not> isBackUrl (history linker) u"
    by (simp_all add: isCurrentUrl_iff isBackUrl_iff)
  then show "history (fst (urlChange parse path rootNav linker u)) = historyPush (history linker) u"
    by (simp add: history_urlChange)
next
  assume a: "\<not> (history linker \<noteq> [] \<and> last (history linker) = u)
        \<and> \<not> (2 \<le> length (history linker) \<and> last (butlast (history linker)) = u)"
  then have "\<not> isCurrentUrl (history linker) u" by (simp add: isCurrentUrl_iff)
  then show "historyPush (history linker) u =
          (if length (history linker) < 30 then history linker @ [u]
           else tl (history linker @ [u]))"
    by (auto simp: historyPush_def Let_def)
qed

theorem urlChange_classifies_witness:
  "urlChange (\<lambda>u. []) ''/b'' None
      \<lparr>segments = [] :: (string, string) navSegment list, history = [''/a'', ''/b''],
       indexAliasUrl = None\<rparr> ''/b''
    = (\<lparr>segments = [], history = [''/a'', ''/b''], indexAliasUrl = None\<rparr>, [])
   \<and> history (fst (urlChange (\<lambda>u. []) ''/a'' None
      \<lparr>segments = [] :: (string, string) navSegment list, history = [''/a'', ''/b''],
       indexAliasUrl = None\<rparr> ''/a'')) = [''/a'']
   \<and> history (fst (urlChange (\<lambda>u. []) ''/c'' None
      \<lparr>segments = [] :: (string, string) navSegment list, history = [''/a'', ''/b''],
       indexAliasUrl = None\<rparr> ''/c'')) = [''/a'', ''/b'', ''/c'']"
  using urlChange_classifies [of "\<lparr>segments = [] :: (string, string) navSegment list,
            history = [''/a'', ''/b''], indexAliasUrl = None\<rparr>" "''/b''" "\<lambda>u. []" "''/b''" None]
        urlChange_classifies [of "\<lparr>segments = [] :: (string, string) navSegment list,
            history = [''/a'', ''/b''], indexAliasUrl = None\<rparr>" "''/a''" "\<lambda>u. []" "''/a''" None]
        urlChange_classifies [of "\<lparr>segments = [] :: (string, string) navSegment list,
            history = [''/a'', ''/b''], indexAliasUrl = None\<rparr>" "''/c''" "\<lambda>u. []" "''/c''" None]
  by simp

text \<open>
  C4, as the code has it. The url compared with the history is the computed url after the
  index alias has been replaced by \<open>/\<close>. A settle with direction back whose url, after
  that replacement, is the entry below the top of the history removes the top entry and
  calls \<open>location.back()\<close>; nothing is pushed and \<open>location.go\<close> is not called.
\<close>

theorem updateLocation_back:
  assumes "direction = DIRECTION_BACK"
    and "2 \<le> length (history linker)"
    and "last (butlast (history linker)) =
           (if indexAliasUrl linker = Some browserUrl then ''/'' else browserUrl)"
  shows "updateLocation path linker browserUrl direction =
           (linker\<lparr>history := butlast (history linker)\<rparr>, [LocationBack])"
  using assms by (simp add: updateLocation_def Let_def isBackUrl_iff historyPop_back)

theorem updateLocation_back_witness:
  "updateLocation ''/list/detail/12''
      \<lparr>segments = [] :: (string, string) navSegment list,
       history = [''/list'', ''/list/detail/12''], indexAliasUrl = None\<rparr> ''/list'' DIRECTION_BACK
    = (\<lparr>segments = [], history = [''/list''], indexAliasUrl = None\<rparr>, [LocationBack])
   \<and> updateLocation ''/home/detail''
      \<lparr>segments = [] :: (string, string) navSegment list,
       history = [''/'', ''/home/detail''], indexAliasUrl = Some ''/home''\<rparr> ''/home'' DIRECTION_BACK
    = (\<lparr>segments = [], history = [''/''], indexAliasUrl = Some ''/home''\<rparr>, [LocationBack])"
  using updateLocation_back [of DIRECTION_BACK
          "\<lparr>segments = [] :: (string, string) navSegment list,
            history = [''/list'', ''/list/detail/12''], indexAliasUrl = None\<rparr>"
          "''/list''" "''/list/detail/12''"]
        updateLocation_back [of DIRECTION_BACK
          "\<lparr>segments = [] :: (string, string) navSegment list,
            history = [''/'', ''/home/detail''], indexAliasUrl = Some ''/home''\<rparr>"
          "''/home''" "''/home/detail''"]
  by simp

theorem updateLocation_back_counterexample:
  "isBackUrl [''/home'', ''/home/detail''] ''/home''
   \<and> updateLocation ''/home/detail''
      \<lparr>segments = [] :: (string, string) navSegment list,
       history = [''/home'', ''/home/detail''], indexAliasUrl = Some ''/home''\<rparr>
      ''/home'' DIRECTION_BACK
    = (\<lparr>segments = [], history = [''/home'', ''/home/detail'', ''/''],
        indexAliasUrl = Some ''/home''\<rparr>,
       [LocationGo ''/''])"
  by (simp add: updateLocation_def Let_def isBackUrl_iff isCurrentUrl_iff historyPush_def)

subsection \<open>Looking components up\<close>

lemma getNavLinkComponent_invalid:
  "link_component link = None \<Longrightarrow> loadChildren link = None \<or> loadChildren link = Some [] \<Longrightarrow>
   fst (getNavLinkComponent load (Some link)) = Rejected (''invalid link component: '' @ link_name link)"
  by (auto simp: getNavLinkComponent_def)

lemma initViews_rejected:
  "fst (getNavLinkComponent load (getLinkFromName (seg_name segment))) = Rejected e \<Longrightarrow>
   fst (initViews getLinkFromName load segment) = Rejected e"
  by (simp add: initViews_def Let_def)

lemma initViews_history_rejected:
  fixes segment :: "('c, 'd) navSegment"
  shows "fst (getNavLinkComponent load (getLinkFromName (seg_name segment))) = Resolved c \<Longrightarrow>
   defaultHistory segment = Some names \<Longrightarrow>
   (convertToViews getLinkFromName load names :: ('c, 'd) viewController list outcome)
     = Rejected e \<Longrightarrow>
   fst (initViews getLinkFromName load segment) = Rejected e"
  by (simp add: initViews_def Let_def)

text \<open>
  Lookup failures that are rejections. A name without a registered link makes
  \<open>getComponentFromName\<close> return a promise rejected with \<open>invalid link: <name>\<close>; a link
  with neither a component nor a \<open>loadChildren\<close> locator makes \<open>getNavLinkComponent\<close> (and
  \<open>getComponentFromName\<close>, for a name registered to such a link) return a promise rejected
  with \<open>invalid link component: <name>\<close>. A rejection of the module loader is passed on. A
  rejected promise of \<open>getNavLinkComponent\<close>, and a rejected resolution of the default
  history, make the promise of \<open>initViews\<close> rejected with the same reason.
\<close>

theorem lookup_failure_rejects:
  fixes segment :: "('c, 'd) navSegment"
  shows "(getLinkFromName name = None \<longrightarrow>
      fst (getComponentFromName getLinkFromName load name) = Rejected (''invalid link: '' @ name))
   \<and> (link_component link = None \<and> (loadChildren link = None \<or> loadChildren link = Some []) \<longrightarrow>
        fst (getNavLinkComponent load (Some link))
          = Rejected (''invalid link component: '' @ link_name link))
   \<and> (getLinkFromName name = Some link \<and> link_component link = None
        \<and> (loadChildren link = None \<or> loadChildren link = Some []) \<longrightarrow>
        fst (getComponentFromName getLinkFromName load name)
          = Rejected (''invalid link component: '' @ link_name link))
   \<and> (\<forall>locator e. link_component link = None \<and> loadChildren link = Some locator
        \<and> locator \<noteq> [] \<and> load locator = Rejected e \<longrightarrow>
        fst (getNavLinkComponent load (Some link)) = Rejected e)
   \<and> (\<forall>e. fst (getNavLinkComponent load (getLinkFromName (seg_name segment))) = Rejected e \<longrightarrow>
        fst (initViews getLinkFromName load segment) = Rejected e)
   \<and> (\<forall>c names e. fst (getNavLinkComponent load (getLinkFromName (seg_name segment))) = Resolved c
        \<and> defaultHistory segment = Some names
        \<and> (convertToViews getLinkFromName load names :: ('c, 'd) viewController list outcome)
            = Rejected e \<longrightarrow>
        fst (initViews getLinkFromName load segment) = Rejected e)"
proof (intro conjI allI impI)
  assume "getLinkFromName name = None"
  then show "fst (getComponentFromName getLinkFromName load name)
      = Rejected (''invalid link: '' @ name)"
    by (simp add: getComponentFromName_def)
next
  assume "link_component link = None \<and> (loadChildren link = None \<or> loadChildren link = Some [])"
  then show "fst (getNavLinkComponent load (Some link))
      = Rejected (''invalid link component: '' @ link_name link)"
    by (intro getNavLinkComponent_invalid) simp_all
next
  assume a: "getLinkFromName name = Some link \<and> link_component link = None
        \<and> (loadChildren link = None \<or> loadChildren link = Some [])"
  then have "fst (getNavLinkComponent load (Some link))
      = Rejected (''invalid link component: '' @ link_name link)"
    by (intro getNavLinkComponent_invalid) simp_all
  with a show "fst (getComponentFromName getLinkFromName load name)
      = Rejected (''invalid link component: '' @ link_name link)"
    by (simp add: getComponentFromName_def)
next
  fix locator e
  assume a: "link_component link = None \<and> loadChildren link = Some locator
        \<and> locator \<noteq> [] \<and> load locator = Rejected e"
  then obtain x xs where "locator = x # xs" by (cases locator) auto
  with a show "fst (getNavLinkComponent load (Some link)) = Rejected e"
    by (simp add: getNavLinkComponent_def)
next
  fix e
  assume "fst (getNavLinkComponent load (getLinkFromName (seg_name segment))) = Rejected e"
  then show "fst (initViews getLinkFromName load segment) = Rejected e"
    by (rule initViews_rejected)
next
  fix c names e
  assume "fst (getNavLinkComponent load (getLinkFromName (seg_name segment))) = Resolved c
        \<and> defaultHistory segment = Some names
        \<and> (convertToViews getLinkFromName load names :: ('c, 'd) viewController list outcome)
            = Rejected e"
  then show "fst (initViews getLinkFromName load segment) = Rejected e"
    by (intro initViews_history_rejected [of load getLinkFromName segment c names]) simp_all
qed


theorem lookup_failure_rejects_witness:
  "fst (getComponentFromName
          (map_of [(''list'', \<lparr>link_name = ''list'', link_component = Some ''ListPage'',
                               loadChildren = None\<rparr>),
                   (''broken'', \<lparr>link_name = ''broken'', link_component = None,
                                 loadChildren = None\<rparr>),
                   (''lazy'', \<lparr>link_name = ''lazy'', link_component = None,
                               loadChildren = Some ''lazy.module''\<rparr>)])
          (\<lambda>locator. Rejected ''no such module'') ''missing'')
     = Rejected ''invalid link: missing''
   \<and> fst (getNavLinkComponent (\<lambda>locator. Rejected ''no such module'')
          (Some \<lparr>link_name = ''broken'', link_component = None :: string option,
                 loadChildren = None\<rparr>))
     = Rejected ''invalid link component: broken''
   \<and> fst (getNavLinkComponent (\<lambda>locator. Rejected ''no such module'')
          (Some \<lparr>link_name = ''lazy'', link_component = None :: string option,
                 loadChildren = Some ''lazy.module''\<rparr>))
     = Rejected ''no such module''
   \<and> fst (initViews
          (map_of [(''list'', \<lparr>link_name = ''list'', link_component = Some ''ListPage'',
                               loadChildren = None\<rparr>),
                   (''broken'', \<lparr>link_name = ''broken'', link_component = None,
                                 loadChildren = None\<rparr>),
                   (''lazy'', \<lparr>link_name = ''lazy'', link_component = None,
                               loadChildren = Some ''lazy.module''\<rparr>)])
          (\<lambda>locator. Rejected ''no such module'')
          \<lparr>seg_id = ''broken'', seg_name = ''broken'', seg_component = None,
           seg_data = None :: string option, navId = None, defaultHistory = None\<rparr>)
     = Rejected ''invalid link component: broken''
   \<and> fst (initViews
          (map_of [(''list'', \<lparr>link_name = ''list'', link_component = Some ''ListPage'',
                               loadChildren = None\<rparr>),
                   (''broken'', \<lparr>link_name = ''broken'', link_component = None,
                                 loadChildren = None\<rparr>),
                   (''lazy'', \<lparr>link_name = ''lazy'', link_component = None,
                               loadChildren = Some ''lazy.module''\<rparr>)])
          (\<lambda>locator. Rejected ''no such module'')
          \<lparr>seg_id = ''list'', seg_name = ''list'', seg_component = None,
           seg_data = None :: string option, navId = None,
           defaultHistory = Some [''missing'']\<rparr>)
     = Rejected ''invalid link: missing''"
proof -
  define reg :: "string \<Rightarrow> string navLink option" where
    "reg = map_of [(''list'', \<lparr>link_name = ''list'', link_component = Some ''ListPage'',
                               loadChildren = None\<rparr>),
                   (''broken'', \<lparr>link_name = ''broken'', link_component = None,
                                 loadChildren = None\<rparr>),
                   (''lazy'', \<lparr>link_name = ''lazy'', link_component = None,
                               loadChildren = Some ''lazy.module''\<rparr>)]"
  define load :: "string \<Rightarrow> string outcome" where
    "load = (\<lambda>locator. Rejected ''no such module'')"
  define broken :: "string navLink" where
    "broken = \<lparr>link_name = ''broken'', link_component = None, loadChildren = None\<rparr>"
  define lazy :: "string navLink" where
    "lazy = \<lparr>link_name = ''lazy'', link_component = None, loadChildren = Some ''lazy.module''\<rparr>"
  define sb :: "(string, string) navSegment" where
    "sb = \<lparr>seg_id = ''broken'', seg_name = ''broken'', seg_component = None,
           seg_data = None, navId = None, defaultHistory = None\<rparr>"
  define sl :: "(string, string) navSegment" where
    "sl = \<lparr>seg_id = ''list'', seg_name = ''list'', seg_component = None,
           seg_data = None, navId = None, defaultHistory = Some [''missing'']\<rparr>"
  note t = lookup_failure_rejects [of reg _ load]
  have h1: "reg ''missing'' = None" by (simp add: reg_def)
  have r1: "fst (getComponentFromName reg load ''missing'') = Rejected ''invalid link: missing''"
    using t [of "''missing''" broken sb, THEN conjunct1, THEN mp, OF h1] by simp
  have h2: "link_component broken = None
      \<and> (loadChildren broken = None \<or> loadChildren broken = Some [])"
    by (simp add: broken_def)
  have r2: "fst (getNavLinkComponent load (Some broken)) = Rejected ''invalid link component: broken''"
    using t [of "''missing''" broken sb, THEN conjunct2, THEN conjunct1, THEN mp, OF h2]
    by (simp add: broken_def)
  have h3: "link_component lazy = None \<and> loadChildren lazy = Some ''lazy.module''
      \<and> ''lazy.module'' \<noteq> [] \<and> load ''lazy.module'' = Rejected ''no such module''"
    by (simp add: lazy_def load_def)
  have r3: "fst (getNavLinkComponent load (Some lazy)) = Rejected ''no such module''"
    using t [of "''missing''" lazy sb, THEN conjunct2, THEN conjunct2, THEN conjunct2,
        THEN conjunct1, THEN spec, THEN spec, THEN mp, OF h3] .
  have h4: "fst (getNavLinkComponent load (reg (seg_name sb)))
      = Rejected ''invalid link component: broken''"
    using r2 by (simp add: sb_def reg_def broken_def)
  have r4: "fst (initViews reg load sb) = Rejected ''invalid link component: broken''"
    using t [of "''missing''" broken sb, THEN conjunct2, THEN conjunct2, THEN conjunct2,
        THEN conjunct2, THEN conjunct1, THEN spec, THEN mp, OF h4] .
  have h5: "fst (getNavLinkComponent load (reg (seg_name sl))) = Resolved ''ListPage''
      \<and> defaultHistory sl = Some [''missing'']
      \<and> (convertToViews reg load [''missing''] :: (string, string) viewController list outcome)
          = Rejected ''invalid link: missing''"
    by (simp add: sl_def reg_def getNavLinkComponent_def getComponentFromName_def)
  have r5: "fst (initViews reg load sl) = Rejected ''invalid link: missing''"
    using t [of "''missing''" broken sl, THEN conjunct2, THEN conjunct2, THEN conjunct2,
        THEN conjunct2, THEN conjunct2, THEN spec, THEN spec, THEN spec, THEN mp, OF h5] .
  show ?thesis
    using r1 r2 r3 r4 r5
    by (simp only: reg_def load_def broken_def lazy_def sb_def sl_def simp_thms)
qed

text \<open>
  C5. \<open>initViews\<close> looks the segment's name up and hands the result to
  \<open>getNavLinkComponent\<close> without the test that \<open>getComponentFromName\<close> makes. For a
  segment whose name has no registered link, such as the tab selector \<open>tab-1\<close> that
  \<open>_pathFromNavs\<close> builds, the read of \<open>link.component\<close> throws and no promise is returned,
  while \<open>getComponentFromName\<close> on the same name returns a rejected promise.
\<close>

theorem initViews_unregistered_name_throws:
  "fst (initViews (map_of [(''list'', \<lparr>link_name = ''list'',
                                        link_component = Some ''ListPage'',
                                        loadChildren = None\<rparr>)])
          (\<lambda>locator. Rejected ''no such module'')
          \<lparr>seg_id = ''tab-1'', seg_name = ''tab-1'', seg_component = None,
           seg_data = None :: string option, navId = None, defaultHistory = None\<rparr>)
     = Throws ''TypeError''
   \<and> fst (getComponentFromName (map_of [(''list'', \<lparr>link_name = ''list'',
                                        link_component = Some ''ListPage'',
                                        loadChildren = None\<rparr>)])
          (\<lambda>locator. Rejected ''no such module'') ''tab-1'')
     = Rejected ''invalid link: tab-1''"
  by (simp add: initViews_def getNavLinkComponent_def getComponentFromName_def)

subsection \<open>Default history\<close>

lemma convertToViews_all:
  fixes getLinkFromName :: "string \<Rightarrow> 'c navLink option"
  assumes "\<forall>n\<in>set names. \<exists>c. fst (getComponentFromName getLinkFromName load n) = Resolved c"
  shows "\<exists>views :: ('c, 'd) viewController list.
           convertToViews getLinkFromName load names = Resolved views
           \<and> length views = length names
           \<and> (\<forall>k<length names. fst (getComponentFromName getLinkFromName load (names ! k))
                                   = Resolved (view_component (views ! k))
                       \<and> view_data (views ! k) = None \<and> view_id (views ! k) = None)"
  using assms
proof (induction names)
  case Nil
  then show ?case by simp
next
  case (Cons n names)
  then obtain c where c: "fst (getComponentFromName getLinkFromName load n) = Resolved c"
    by auto
  from Cons obtain views :: "('c, 'd) viewController list" where
    v: "convertToViews getLinkFromName load names = Resolved views"
       "length views = length names"
       "\<forall>k<length names. fst (getComponentFromName getLinkFromName load (names ! k))
                                   = Resolved (view_component (views ! k))
                       \<and> view_data (views ! k) = None \<and> view_id (views ! k) = None"
    by auto
  let ?v = "\<lparr>view_component = c, view_data = None :: 'd option, view_id = None\<rparr>"
  have 1: "convertToViews getLinkFromName load (n # names) = Resolved (?v # views)"
    using c v(1) by simp
  have 2: "length (?v # views) = length (n # names)" using v(2) by simp
  have 3: "\<forall>k<length (n # names).
        fst (getComponentFromName getLinkFromName load ((n # names) ! k))
          = Resolved (view_component ((?v # views) ! k))
        \<and> view_data ((?v # views) ! k) = None \<and> view_id ((?v # views) ! k) = None"
  proof (intro allI impI)
    fix k assume "k < length (n # names)"
    then show "fst (getComponentFromName getLinkFromName load ((n # names) ! k))
          = Resolved (view_component ((?v # views) ! k))
        \<and> view_data ((?v # views) ! k) = None \<and> view_id ((?v # views) ! k) = None"
      using c v(3) by (cases k) auto
  qed
  from 1 2 3 show ?case by blast
qed

text \<open>
  C6. For a segment with a default history whose own component and whose ancestors'
  names all resolve, \<open>initViews\<close> resolves to one view per name of the default history, in
  the order of the names and each with the component its name resolves to, followed by
  the view of the segment itself, which is the last element.
\<close>

theorem initViews_default_history:
  fixes segment :: "('c, 'd) navSegment"
  assumes "fst (getNavLinkComponent load (getLinkFromName (seg_name segment))) = Resolved c"
    and "defaultHistory segment = Some names"
    and "\<forall>n\<in>set names. \<exists>c'. fst (getComponentFromName getLinkFromName load n) = Resolved c'"
  shows "\<exists>views.
           fst (initViews getLinkFromName load segment) =
             Resolved (views @ [\<lparr>view_component = c, view_data = seg_data segment,
                                 view_id = Some (seg_id segment)\<rparr>])
           \<and> length views = length names
           \<and> (\<forall>k<length names. fst (getComponentFromName getLinkFromName load (names ! k))
                                   = Resolved (view_component (views ! k)))"
proof -
  from convertToViews_all [OF assms(3)]
  obtain views :: "('c, 'd) viewController list" where
    v: "convertToViews getLinkFromName load names = Resolved views"
       "length views = length names"
       "\<forall>k<length names. fst (getComponentFromName getLinkFromName load (names ! k))
                                   = Resolved (view_component (views ! k))
                       \<and> view_data (views ! k) = None \<and> view_id (views ! k) = None"
    by blast
  have "fst (initViews getLinkFromName load segment) =
             Resolved (views @ [\<lparr>view_component = c, view_data = seg_data segment,
                                 view_id = Some (seg_id segment)\<rparr>])"
    using assms(1,2) v(1) by (simp add: initViews_def Let_def)
  with v(2,3) show ?thesis by blast
qed

theorem initViews_default_history_witness:
  "fst (initViews
          (map_of [(''list'', \<lparr>link_name = ''list'', link_component = Some ''ListPage'',
                               loadChildren = None\<rparr>),
                   (''detail-page'', \<lparr>link_name = ''detail-page'',
                                      link_component = Some ''DetailPage'',
                                      loadChildren = None\<rparr>)])
          (\<lambda>locator. Rejected ''no such module'')
          \<lparr>seg_id = ''42'', seg_name = ''detail-page'', seg_component = None,
           seg_data = Some ''id=42'', navId = None, defaultHistory = Some [''list'']\<rparr>)
     = Resolved [\<lparr>view_component = ''ListPage'', view_data = None, view_id = None\<rparr>,
                 \<lparr>view_component = ''DetailPage'', view_data = Some ''id=42'',
                  view_id = Some ''42''\<rparr>]"
proof -
  define reg :: "string \<Rightarrow> string navLink option" where
    "reg = map_of [(''list'', \<lparr>link_name = ''list'', link_component = Some ''ListPage'',
                               loadChildren = None\<rparr>),
                   (''detail-page'', \<lparr>link_name = ''detail-page'',
                                      link_component = Some ''DetailPage'',
                                      loadChildren = None\<rparr>)]"
  define load :: "string \<Rightarrow> string outcome" where
    "load = (\<lambda>locator. Rejected ''no such module'')"
  define seg :: "(string, string) navSegment" where
    "seg = \<lparr>seg_id = ''42'', seg_name = ''detail-page'', seg_component = None,
            seg_data = Some ''id=42'', navId = None, defaultHistory = Some [''list'']\<rparr>"
  have h1: "fst (getNavLinkComponent load (reg (seg_name seg))) = Resolved ''DetailPage''"
    by (simp add: seg_def reg_def getNavLinkComponent_def)
  have h2: "defaultHistory seg = Some [''list'']" by (simp add: seg_def)
  have h3: "\<forall>n\<in>set [''list'']. \<exists>c'. fst (getComponentFromName reg load n) = Resolved c'"
    by (simp add: reg_def getComponentFromName_def getNavLinkComponent_def)
  from initViews_default_history [OF h1 h2 h3]
  obtain views where v: "fst (initViews reg load seg) =
      Resolved (views @ [\<lparr>view_component = ''DetailPage'', view_data = seg_data seg,
                          view_id = Some (seg_id seg)\<rparr>])"
    "length views = length [''list'']" by blast
  have e: "fst (initViews reg load seg) =
      Resolved [\<lparr>view_component = ''ListPage'', view_data = None, view_id = None\<rparr>,
                 \<lparr>view_component = ''DetailPage'', view_data = Some ''id=42'',
                  view_id = Some ''42''\<rparr>]"
    by (simp add: initViews_def Let_def seg_def reg_def getNavLinkComponent_def
        getComponentFromName_def)
  from v e have "length views = 1" by simp
  with e show ?thesis by (simp only: reg_def load_def seg_def)
qed

end
